theory Spec2Isabelle
  imports Main "HOL-Library.Multiset"
begin

section \<open>Values of the document store\<close>

text \<open>
  The query and update engine of \<^verbatim>\<open>durable-objects-nosql\<close> works on plain JavaScript
  data: documents come out of \<^verbatim>\<open>JSON.parse\<close>, queries and updates are object literals.
  A value is therefore a finite tree.  The numbers of the model are the whole numbers;
  a sum stays in the model while it is exact for a double (at most 9007199254740992 in
  absolute value) and is the host's otherwise, and fractions, NaN and the infinities are
  not values here.  Strings
  are lists of characters, an object is the list of its own enumerable properties in the
  order \<^verbatim>\<open>Object.entries\<close> enumerates them (integer-like keys ascending, then the other
  keys as inserted).  Two object or array values are never the same reference: a document
  is freshly parsed and the operands are literals.  Property reads see own data
  properties, array indices and \<^verbatim>\<open>length\<close>; members inherited from a prototype
  (\<^verbatim>\<open>constructor\<close>, \<^verbatim>\<open>__proto__\<close>, methods) and holes of arrays are not part of the
  model, so paths are taken not to name them.
\<close>

datatype jsvalue =
    Undefined
  | Null
  | Bool bool
  | Num int
  | Str string
  | Arr "jsvalue list"
  | Obj "(string \<times> jsvalue) list"

text \<open>What the engine can raise.  \<open>Error msg\<close> is \<^verbatim>\<open>throw new Error(msg)\<close>;
  \<open>RangeError\<close> is the exhausted call stack.  \<open>Unmodelled\<close> is no exception of the
  program: it marks the inputs the model does not cover (a hole or a named property made
  on an array, an identifier that is not a string bound in a statement of the storage),
  where it gives no answer instead of a wrong one.\<close>

datatype error = TypeError | SyntaxError | RangeError | Error string | Unmodelled

datatype relop = Lt | Gt | Le | Ge

text \<open>
  Operations of the JavaScript host that the repository only calls: the regular
  expression engine, the coercing cases of the relational operators and of \<^verbatim>\<open>+\<close>,
  the JSON codec and \<^verbatim>\<open>Array.prototype.sort\<close>.  Every definition below takes them as a
  parameter, so every theorem holds for whatever the host does there, unless it states
  what it assumes of the host.
\<close>

record host =
  RegExp_test :: "jsvalue \<Rightarrow> jsvalue \<Rightarrow> error + bool"
  coerce_rel :: "relop \<Rightarrow> jsvalue \<Rightarrow> jsvalue \<Rightarrow> error + bool"
  coerce_plus :: "jsvalue \<Rightarrow> jsvalue \<Rightarrow> error + jsvalue"
  JSON_parse :: "string \<Rightarrow> error + jsvalue"
  JSON_stringify :: "jsvalue \<Rightarrow> string"
  Array_sort :: "(jsvalue \<Rightarrow> jsvalue \<Rightarrow> error + int) \<Rightarrow> jsvalue list \<Rightarrow> error + jsvalue list"

subsection \<open>Primitive operations\<close>

fun string_of_nat :: "nat \<Rightarrow> string" where
  "string_of_nat n =
     (if n < 10 then [char_of (48 + n)]
      else string_of_nat (n div 10) @ [char_of (48 + n mod 10)])"

declare string_of_nat.simps [simp del]

definition is_digit :: "char \<Rightarrow> bool" where
  "is_digit c = (48 \<le> (of_char c :: nat) \<and> (of_char c :: nat) \<le> 57)"

definition nat_of_digits :: "string \<Rightarrow> nat" where
  "nat_of_digits s = foldl (\<lambda>acc c. 10 * acc + (of_char c - 48)) 0 s"

text \<open>A property name is an array index, and an integer-like key of an object, when it is
  the canonical decimal numeral of a number below \<open>2\<^sup>3\<^sup>2 - 1\<close>.\<close>

definition parse_index :: "string \<Rightarrow> nat option" where
  "parse_index s =
     (if s \<noteq> [] \<and> list_all is_digit s \<and> (s = ''0'' \<or> hd s \<noteq> CHR ''0'')
          \<and> nat_of_digits s < 4294967295
      then Some (nat_of_digits s) else None)"

definition indexed :: "jsvalue list \<Rightarrow> (string \<times> jsvalue) list" where
  "indexed xs = zip (map string_of_nat [0 ..< length xs]) xs"

text \<open>\<^verbatim>\<open>Object.entries(v)\<close>: throws on \<^verbatim>\<open>null\<close> and \<^verbatim>\<open>undefined\<close>, enumerates the
  indices of an array or string, and finds nothing on a number or boolean.\<close>

fun Object_entries :: "jsvalue \<Rightarrow> error + (string \<times> jsvalue) list" where
  "Object_entries Undefined = Inl TypeError"
| "Object_entries Null = Inl TypeError"
| "Object_entries (Bool b) = Inr []"
| "Object_entries (Num n) = Inr []"
| "Object_entries (Str s) = Inr (indexed (map (\<lambda>c. Str [c]) s))"
| "Object_entries (Arr xs) = Inr (indexed xs)"
| "Object_entries (Obj kvs) = Inr kvs"

fun typeof :: "jsvalue \<Rightarrow> string" where
  "typeof Undefined = ''undefined''"
| "typeof Null = ''object''"
| "typeof (Bool b) = ''boolean''"
| "typeof (Num n) = ''number''"
| "typeof (Str s) = ''string''"
| "typeof (Arr xs) = ''object''"
| "typeof (Obj kvs) = ''object''"

fun truthy :: "jsvalue \<Rightarrow> bool" where
  "truthy Undefined = False"
| "truthy Null = False"
| "truthy (Bool b) = b"
| "truthy (Num n) = (n \<noteq> 0)"
| "truthy (Str s) = (s \<noteq> [])"
| "truthy (Arr xs) = True"
| "truthy (Obj kvs) = True"

text \<open>\<^verbatim>\<open>a === b\<close>.  Objects and arrays compare by reference, and no two values of the
  model share one.\<close>

definition strict_eq :: "jsvalue \<Rightarrow> jsvalue \<Rightarrow> bool" where
  "strict_eq a b =
     (case a of
        Undefined \<Rightarrow> b = Undefined
      | Null \<Rightarrow> b = Null
      | Bool x \<Rightarrow> b = Bool x
      | Num x \<Rightarrow> b = Num x
      | Str x \<Rightarrow> b = Str x
      | Arr xs \<Rightarrow> False
      | Obj kvs \<Rightarrow> False)"

text \<open>\<^verbatim>\<open>xs.includes(v)\<close>\<close>

definition js_includes :: "jsvalue list \<Rightarrow> jsvalue \<Rightarrow> bool" where
  "js_includes xs v = list_ex (\<lambda>x. strict_eq x v) xs"

text \<open>Strings compare by code unit, position by position.\<close>

fun str_lt :: "string \<Rightarrow> string \<Rightarrow> bool" where
  "str_lt [] [] = False"
| "str_lt [] (y # ys) = True"
| "str_lt (x # xs) [] = False"
| "str_lt (x # xs) (y # ys) =
     (if (of_char x :: nat) < of_char y then True
      else if (of_char y :: nat) < of_char x then False
      else str_lt xs ys)"

text \<open>\<^verbatim>\<open>a < b\<close>, \<^verbatim>\<open>a > b\<close>, \<^verbatim>\<open>a <= b\<close>, \<^verbatim>\<open>a >= b\<close>: two numbers by value, two
  strings by code unit, everything else through the host's coercions.\<close>

fun num_rel :: "relop \<Rightarrow> int \<Rightarrow> int \<Rightarrow> bool" where
  "num_rel Lt a b = (a < b)"
| "num_rel Gt a b = (a > b)"
| "num_rel Le a b = (a \<le> b)"
| "num_rel Ge a b = (a \<ge> b)"

fun str_rel :: "relop \<Rightarrow> string \<Rightarrow> string \<Rightarrow> bool" where
  "str_rel Lt a b = str_lt a b"
| "str_rel Gt a b = str_lt b a"
| "str_rel Le a b = (\<not> str_lt b a)"
| "str_rel Ge a b = (\<not> str_lt a b)"

definition js_rel :: "host \<Rightarrow> relop \<Rightarrow> jsvalue \<Rightarrow> jsvalue \<Rightarrow> error + bool" where
  "js_rel h op a b =
     (case (a, b) of
        (Num x, Num y) \<Rightarrow> Inr (num_rel op x y)
      | (Str x, Str y) \<Rightarrow> Inr (str_rel op x y)
      | _ \<Rightarrow> coerce_rel h op a b)"

text \<open>\<^verbatim>\<open>a + b\<close>: two whole numbers whose sum a double holds exactly, two strings, and
  everything else through the host.\<close>

definition js_plus :: "host \<Rightarrow> jsvalue \<Rightarrow> jsvalue \<Rightarrow> error + jsvalue" where
  "js_plus h a b =
     (case (a, b) of
        (Num x, Num y) \<Rightarrow>
          if \<bar>x\<bar> \<le> 9007199254740992 \<and> \<bar>y\<bar> \<le> 9007199254740992
             \<and> \<bar>x + y\<bar> \<le> 9007199254740992
          then Inr (Num (x + y)) else coerce_plus h a b
      | (Str x, Str y) \<Rightarrow> Inr (Str (x @ y))
      | _ \<Rightarrow> coerce_plus h a b)"

text \<open>\<^verbatim>\<open>xs.every(f)\<close> and \<^verbatim>\<open>xs.some(f)\<close> with a callback that may throw: the
  callbacks run in order and stop at the first decisive answer or exception.\<close>

fun every :: "('a \<Rightarrow> error + bool) \<Rightarrow> 'a list \<Rightarrow> error + bool" where
  "every f [] = Inr True"
| "every f (x # xs) =
     (case f x of Inl e \<Rightarrow> Inl e | Inr b \<Rightarrow> if b then every f xs else Inr False)"

fun some :: "('a \<Rightarrow> error + bool) \<Rightarrow> 'a list \<Rightarrow> error + bool" where
  "some f [] = Inr False"
| "some f (x # xs) =
     (case f x of Inl e \<Rightarrow> Inl e | Inr b \<Rightarrow> if b then Inr True else some f xs)"

lemma every_cong [fundef_cong]:
  "xs = ys \<Longrightarrow> (\<And>x. x \<in> set ys \<Longrightarrow> f x = g x) \<Longrightarrow> every f xs = every g ys"
  by (induction ys arbitrary: xs) (auto split: sum.splits)

lemma some_cong [fundef_cong]:
  "xs = ys \<Longrightarrow> (\<And>x. x \<in> set ys \<Longrightarrow> f x = g x) \<Longrightarrow> some f xs = some g ys"
  by (induction ys arbitrary: xs) (auto split: sum.splits)

subsection \<open>Path accessor: reading\<close>

text \<open>\<^verbatim>\<open>path.split('.')\<close>: always at least one part.\<close>

fun split_dot :: "string \<Rightarrow> string list" where
  "split_dot [] = [[]]"
| "split_dot (c # cs) =
     (if c = CHR ''.'' then [] # split_dot cs
      else (case split_dot cs of p # ps \<Rightarrow> (c # p) # ps | [] \<Rightarrow> [[c]]))"

text \<open>\<^verbatim>\<open>current[part]\<close> on a value that is neither \<^verbatim>\<open>null\<close> nor \<^verbatim>\<open>undefined\<close>.\<close>

fun js_get :: "jsvalue \<Rightarrow> string \<Rightarrow> jsvalue" where
  "js_get (Obj kvs) part = (case map_of kvs part of Some v \<Rightarrow> v | None \<Rightarrow> Undefined)"
| "js_get (Arr xs) part =
     (if part = ''length'' then Num (int (length xs))
      else case parse_index part of
             Some i \<Rightarrow> if i < length xs then xs ! i else Undefined
           | None \<Rightarrow> Undefined)"
| "js_get (Str s) part =
     (if part = ''length'' then Num (int (length s))
      else case parse_index part of
             Some i \<Rightarrow> if i < length s then Str [s ! i] else Undefined
           | None \<Rightarrow> Undefined)"
| "js_get _ part = Undefined"

text \<open>The loop of \<^verbatim>\<open>getNestedProperty\<close> over the parts of the path.\<close>

fun get_parts :: "jsvalue \<Rightarrow> string list \<Rightarrow> jsvalue" where
  "get_parts current [] = current"
| "get_parts current (part # parts) =
     (if current = Null \<or> current = Undefined then Undefined
      else get_parts (js_get current part) parts)"

definition getNestedProperty :: "jsvalue \<Rightarrow> string \<Rightarrow> jsvalue" where
  "getNestedProperty obj path = get_parts obj (split_dot path)"

section \<open>Predicate evaluator\<close>

definition startsWith_dollar :: "string \<Rightarrow> bool" where
  "startsWith_dollar key = (case key of c # _ \<Rightarrow> c = CHR ''$'' | [] \<Rightarrow> False)"

text \<open>Nesting depth of a value, the measure of the recursion below.\<close>

fun depth :: "jsvalue \<Rightarrow> nat" where
  "depth (Arr xs) = Suc (fold max (map depth xs) 0)"
| "depth (Obj kvs) = Suc (fold max (map (\<lambda>kv. depth (snd kv)) kvs) 0)"
| "depth _ = 0"

lemma le_fold_max: "n \<in> set ns \<Longrightarrow> n \<le> fold max ns (m::nat)"
proof (induction ns arbitrary: m)
  case Nil
  then show ?case by simp
next
  case (Cons a ns)
  have mono: "\<And>k. k \<le> fold max ns k"
  proof -
    fix k :: nat
    show "k \<le> fold max ns k"
    proof (induction ns arbitrary: k)
      case Nil
      show ?case by simp
    next
      case (Cons b bs)
      have "k \<le> max b k" by simp
      also have "\<dots> \<le> fold max bs (max b k)" by (rule Cons.IH)
      finally show ?case by simp
    qed
  qed
  show ?case
  proof (cases "n = a")
    case True
    have "a \<le> max a m" by simp
    also have "\<dots> \<le> fold max ns (max a m)" by (rule mono)
    finally show ?thesis using True by simp
  next
    case False
    with Cons.prems have "n \<in> set ns" by simp
    then show ?thesis using Cons.IH by simp
  qed
qed

lemma depth_Arr_elem: "x \<in> set xs \<Longrightarrow> depth x < depth (Arr xs)"
  using le_fold_max [of "depth x" "map depth xs" 0] by (simp add: less_Suc_eq_le)

lemma depth_Obj_elem: "(k, v) \<in> set kvs \<Longrightarrow> depth v < depth (Obj kvs)"
  using le_fold_max [of "depth v" "map (\<lambda>kv. depth (snd kv)) kvs" 0]
  by (force simp: less_Suc_eq_le)

lemma depth_entries:
  assumes "Object_entries q = Inr es" and "(k, v) \<in> set es"
  shows "depth v < depth q \<or> (\<exists>s. v = Str s)"
proof (cases q)
  case (Str s)
  with assms show ?thesis by (auto simp: indexed_def dest!: set_zip_rightD)
next
  case (Arr xs)
  with assms have "v \<in> set xs" by (auto simp: indexed_def dest!: set_zip_rightD)
  then show ?thesis using Arr depth_Arr_elem by blast
next
  case (Obj kvs)
  with assms show ?thesis using depth_Obj_elem by auto
qed (use assms in auto)

lemma depth_entries_object:
  assumes "Object_entries q = Inr es" and "(k, v) \<in> set es"
    and "v \<noteq> Null \<and> typeof v = ''object''"
  shows "depth v < depth q" and "0 < depth v"
  using depth_entries [OF assms(1,2)] assms(3) by (cases v; auto)+

function matchesQuery :: "host \<Rightarrow> jsvalue \<Rightarrow> jsvalue \<Rightarrow> error + bool"
  and matchesOperator :: "host \<Rightarrow> jsvalue \<Rightarrow> string \<Rightarrow> jsvalue \<Rightarrow> error + bool"
where
  "matchesQuery h document query =
     (case Object_entries query of
        Inl e \<Rightarrow> Inl e
      | Inr entries \<Rightarrow>
          every (\<lambda>(key, value).
            if startsWith_dollar key then
              (if key = ''$and'' then
                 (case value of
                    Arr subQueries \<Rightarrow> every (\<lambda>subQuery. matchesQuery h document subQuery) subQueries
                  | _ \<Rightarrow> Inr False)
               else if key = ''$or'' then
                 (case value of
                    Arr subQueries \<Rightarrow> some (\<lambda>subQuery. matchesQuery h document subQuery) subQueries
                  | _ \<Rightarrow> Inr False)
               else if key = ''$nor'' then
                 (case value of
                    Arr subQueries \<Rightarrow>
                      (case some (\<lambda>subQuery. matchesQuery h document subQuery) subQueries of
                         Inl e \<Rightarrow> Inl e
                       | Inr b \<Rightarrow> Inr (\<not> b))
                  | _ \<Rightarrow> Inr False)
               else Inr False)
            else
              (let docValue = getNestedProperty document key in
               if value \<noteq> Null \<and> typeof value = ''object'' then
                 (case Object_entries value of
                    Inl e \<Rightarrow> Inl e
                  | Inr ops \<Rightarrow> every (\<lambda>(op, opValue). matchesOperator h docValue op opValue) ops)
               else matchesOperator h docValue ''$eq'' value))
          entries)"
| "matchesOperator h value operator operatorValue =
     (if operator = ''$eq'' then Inr (strict_eq value operatorValue)
      else if operator = ''$gt'' then js_rel h Gt value operatorValue
      else if operator = ''$gte'' then js_rel h Ge value operatorValue
      else if operator = ''$lt'' then js_rel h Lt value operatorValue
      else if operator = ''$lte'' then js_rel h Le value operatorValue
      else if operator = ''$ne'' then Inr (\<not> strict_eq value operatorValue)
      else if operator = ''$in'' then
        (case operatorValue of Arr xs \<Rightarrow> Inr (js_includes xs value) | _ \<Rightarrow> Inr False)
      else if operator = ''$nin'' then
        (case operatorValue of Arr xs \<Rightarrow> Inr (\<not> js_includes xs value) | _ \<Rightarrow> Inr False)
      else if operator = ''$not'' then
        (case matchesQuery h (Obj [(''value'', value)]) (Obj [(''value'', operatorValue)]) of
           Inl e \<Rightarrow> Inl e
         | Inr b \<Rightarrow> Inr (\<not> b))
      else if operator = ''$exists'' then
        Inr (if truthy operatorValue then value \<noteq> Undefined else value = Undefined)
      else if operator = ''$type'' then Inr (strict_eq (Str (typeof value)) operatorValue)
      else if operator = ''$regex'' then RegExp_test h operatorValue value
      else Inr False)"
  by pat_completeness auto

termination
proof (relation "measure (\<lambda>x. case x of
      Inl (h, d, q) \<Rightarrow> 2 * depth q + 2
    | Inr (h, v, op, opv) \<Rightarrow> if op = ''$not'' then 2 * depth opv + 5 else 0)",
    goal_cases)
  case 1
  show ?case by simp
next
  case (2 h document query es x key "value" subQueries subQuery)
  then have "depth (Arr subQueries) < depth query"
    using depth_entries [of query es key "Arr subQueries"] by auto
  moreover have "depth subQuery < depth (Arr subQueries)"
    using 2 depth_Arr_elem by blast
  ultimately show ?case by simp
next
  case (3 h document query es x key "value" subQueries subQuery)
  then have "depth (Arr subQueries) < depth query"
    using depth_entries [of query es key "Arr subQueries"] by auto
  moreover have "depth subQuery < depth (Arr subQueries)"
    using 3 depth_Arr_elem by blast
  ultimately show ?case by simp
next
  case (4 h document query es x key "value" subQueries subQuery)
  then have "depth (Arr subQueries) < depth query"
    using depth_entries [of query es key "Arr subQueries"] by auto
  moreover have "depth subQuery < depth (Arr subQueries)"
    using 4 depth_Arr_elem by blast
  ultimately show ?case by simp
next
  case (5 h document query es x key "value" docValue ops y op opValue)
  then have a: "depth value < depth query"
    using depth_entries_object(1) [of query es key "value"] by auto
  from 5 have "depth opValue < depth value \<or> (\<exists>s. opValue = Str s)"
    using depth_entries [of "value" ops op opValue] by auto
  moreover from 5 have "0 < depth value"
    using depth_entries_object(2) [of query es key "value"] by auto
  ultimately have "depth opValue < depth value" by auto
  with a 5 show ?case by auto
next
  case 6
  then show ?case by simp
next
  case 7
  then show ?case by simp
qed

declare matchesQuery.simps [simp del] matchesOperator.simps [simp del]

section \<open>Result cursor\<close>

text \<open>\<^verbatim>\<open>xs.slice(start, stop)\<close>; a negative position counts from the end, and a missing
  \<open>stop\<close> is the length.\<close>

definition js_slice :: "int \<Rightarrow> int option \<Rightarrow> 'a list \<Rightarrow> 'a list" where
  "js_slice start stop xs =
     (let n = int (length xs);
          k = (if start < 0 then max (n + start) 0 else min start n);
          final = (case stop of
                     None \<Rightarrow> n
                   | Some e \<Rightarrow> if e < 0 then max (n + e) 0 else min e n)
      in take (nat (final - k)) (drop (nat k) xs))"

text \<open>The comparator that \<^verbatim>\<open>toArray\<close> hands to \<^verbatim>\<open>sort\<close>: the entries of the sort
  specification in turn; the earliest key on which one value is below the other decides.\<close>

fun compareDocs :: "host \<Rightarrow> (string \<times> int) list \<Rightarrow> jsvalue \<Rightarrow> jsvalue \<Rightarrow> error + int" where
  "compareDocs h [] a b = Inr 0"
| "compareDocs h ((key, direction) # rest) a b =
     (let valueA = getNestedProperty a key;
          valueB = getNestedProperty b key
      in case js_rel h Lt valueA valueB of
           Inl e \<Rightarrow> Inl e
         | Inr isLess \<Rightarrow>
             if isLess then Inr (- 1 * direction)
             else (case js_rel h Gt valueA valueB of
                     Inl e \<Rightarrow> Inl e
                   | Inr isGreater \<Rightarrow>
                       if isGreater then Inr (1 * direction)
                       else compareDocs h rest a b))"

text \<open>
  \<^verbatim>\<open>CursorImpl\<close>.  The fields \<^verbatim>\<open>_limit\<close>, \<^verbatim>\<open>_skip\<close> and \<^verbatim>\<open>_sort\<close> are optional;
  the sort specification is kept as the list of its entries.  \<open>priv_documents\<close> is the
  property \<^verbatim>\<open>_documents\<close> that the guard installed by \<^verbatim>\<open>find\<close> reads: no statement of
  the source assigns it.  \<open>execute_collection\<close> and \<open>execute_query\<close> are what the closure
  \<^verbatim>\<open>_execute\<close> captures.
\<close>

record cursor =
  documents :: "jsvalue list"
  priv_limit :: "int option"
  priv_skip :: "int option"
  priv_sort :: "(string \<times> int) list option"
  priv_documents :: "jsvalue list option"
  execute_collection :: string
  execute_query :: jsvalue

text \<open>\<^verbatim>\<open>CursorImpl.toArray\<close>, the method of the class: the host sorts a copy, then
  \<^verbatim>\<open>if (this._skip)\<close> and \<^verbatim>\<open>if (this._limit)\<close>, which are false for 0.\<close>

definition CursorImpl_toArray :: "host \<Rightarrow> cursor \<Rightarrow> error + jsvalue list" where
  "CursorImpl_toArray h c =
     (case (case priv_sort c of
              None \<Rightarrow> Inr (documents c)
            | Some sortSpec \<Rightarrow> Array_sort h (compareDocs h sortSpec) (documents c)) of
        Inl e \<Rightarrow> Inl e
      | Inr sorted_result \<Rightarrow>
          (let skipped = (case priv_skip c of
                            None \<Rightarrow> sorted_result
                          | Some n \<Rightarrow> if n \<noteq> 0 then js_slice n None sorted_result
                                     else sorted_result);
               limited = (case priv_limit c of
                            None \<Rightarrow> skipped
                          | Some n \<Rightarrow> if n \<noteq> 0 then js_slice 0 (Some n) skipped
                                     else skipped)
           in Inr limited))"

definition CursorImpl_count :: "cursor \<Rightarrow> nat" where
  "CursorImpl_count c = length (documents c)"

definition CursorImpl_limit :: "int \<Rightarrow> cursor \<Rightarrow> cursor" where
  "CursorImpl_limit n c = c\<lparr>priv_limit := Some n\<rparr>"

definition CursorImpl_skip :: "int \<Rightarrow> cursor \<Rightarrow> cursor" where
  "CursorImpl_skip n c = c\<lparr>priv_skip := Some n\<rparr>"


section \<open>Storage and collection\<close>

text \<open>
  The table \<^verbatim>\<open>documents\<close> of the SQL store is the list of its rows.  \<open>scans\<close> counts
  the \<^verbatim>\<open>SELECT\<close> statements executed so far: it is not a field of the program, it
  records how often the collection was read.
\<close>

record stored_document =
  sd_id :: string
  sd_collection :: string
  sd_data :: string

record storage =
  rows :: "stored_document list"
  scans :: nat

text \<open>\<^verbatim>\<open>SELECT * FROM documents WHERE collection = ?\<close>\<close>

definition sql_select :: "string \<Rightarrow> storage \<Rightarrow> stored_document list \<times> storage" where
  "sql_select collectionName st =
     (filter (\<lambda>r. sd_collection r = collectionName) (rows st), st\<lparr>scans := scans st + 1\<rparr>)"


text \<open>The loop of \<^verbatim>\<open>getAllDocuments\<close>: every row of the result is parsed, in order.\<close>

fun parse_rows :: "host \<Rightarrow> stored_document list \<Rightarrow> error + jsvalue list" where
  "parse_rows h [] = Inr []"
| "parse_rows h (r # rs) =
     (case JSON_parse h (sd_data r) of
        Inl e \<Rightarrow> Inl e
      | Inr document \<Rightarrow>
          (case parse_rows h rs of
             Inl e \<Rightarrow> Inl e
           | Inr ds \<Rightarrow> Inr (document # ds)))"

definition getAllDocuments :: "host \<Rightarrow> string \<Rightarrow> storage \<Rightarrow> error + (jsvalue list \<times> storage)" where
  "getAllDocuments h collectionName st =
     (case sql_select collectionName st of
        (rs, st') \<Rightarrow>
          (case parse_rows h rs of
             Inl e \<Rightarrow> Inl e
           | Inr ds \<Rightarrow> Inr (ds, st')))"

text \<open>\<^verbatim>\<open>xs.filter(f)\<close> with a callback that may throw.\<close>

fun filterE :: "('a \<Rightarrow> error + bool) \<Rightarrow> 'a list \<Rightarrow> error + 'a list" where
  "filterE f [] = Inr []"
| "filterE f (x # xs) =
     (case f x of
        Inl e \<Rightarrow> Inl e
      | Inr keep \<Rightarrow>
          (case filterE f xs of
             Inl e \<Rightarrow> Inl e
           | Inr ys \<Rightarrow> Inr (if keep then x # ys else ys)))"

text \<open>The closure \<^verbatim>\<open>_execute\<close> that \<^verbatim>\<open>find\<close> installs on the cursor.\<close>

definition execute ::
  "host \<Rightarrow> string \<Rightarrow> jsvalue \<Rightarrow> storage \<Rightarrow> error + (jsvalue list \<times> storage)" where
  "execute h collectionName query st =
     (case getAllDocuments h collectionName st of
        Inl e \<Rightarrow> Inl e
      | Inr (ds, st') \<Rightarrow>
          (case filterE (\<lambda>doc. matchesQuery h doc query) ds of
             Inl e \<Rightarrow> Inl e
           | Inr matching \<Rightarrow> Inr (matching, st')))"

text \<open>\<^verbatim>\<open>find(query = {}, options = {})\<close>: a cursor over no documents; \<^verbatim>\<open>options\<close> is
  not read.\<close>

definition CollectionImpl_find :: "string \<Rightarrow> jsvalue \<Rightarrow> jsvalue \<Rightarrow> cursor" where
  "CollectionImpl_find collectionName query options =
     \<lparr> documents = [], priv_limit = None, priv_skip = None, priv_sort = None,
       priv_documents = None, execute_collection = collectionName,
       execute_query = (if query = Undefined then Obj [] else query) \<rparr>"

text \<open>The \<^verbatim>\<open>toArray\<close> that \<^verbatim>\<open>find\<close> puts in place of the method: it runs
  \<^verbatim>\<open>_execute\<close> when \<^verbatim>\<open>_documents\<close> is missing or empty, stores the result in
  \<^verbatim>\<open>documents\<close>, and calls the original method.\<close>

definition find_toArray ::
  "host \<Rightarrow> cursor \<Rightarrow> storage \<Rightarrow> error + (jsvalue list \<times> cursor \<times> storage)" where
  "find_toArray h c st =
     (if (case priv_documents c of None \<Rightarrow> True | Some ds \<Rightarrow> length ds = 0) then
        (case execute h (execute_collection c) (execute_query c) st of
           Inl e \<Rightarrow> Inl e
         | Inr (matching, st') \<Rightarrow>
             (let c' = c\<lparr>documents := matching\<rparr>
              in case CursorImpl_toArray h c' of
                   Inl e \<Rightarrow> Inl e
                 | Inr result \<Rightarrow> Inr (result, c', st')))
      else
        (case CursorImpl_toArray h c of
           Inl e \<Rightarrow> Inl e
         | Inr result \<Rightarrow> Inr (result, c, st)))"



section \<open>Path accessor: writing\<close>

text \<open>\<^verbatim>\<open>part in current\<close>: a TypeError unless \<open>current\<close> is an object or an array.\<close>

fun js_in :: "string \<Rightarrow> jsvalue \<Rightarrow> error + bool" where
  "js_in part (Obj kvs) = Inr (map_of kvs part \<noteq> None)"
| "js_in part (Arr xs) =
     Inr (part = ''length'' \<or>
          (case parse_index part of Some i \<Rightarrow> i < length xs | None \<Rightarrow> False))"
| "js_in part _ = Inl TypeError"

text \<open>A new property of an object: an integer-like key goes among the integer-like keys,
  in ascending order, any other key to the end.\<close>

definition add_property :: "(string \<times> 'v) list \<Rightarrow> string \<Rightarrow> 'v \<Rightarrow> (string \<times> 'v) list" where
  "add_property kvs part v =
     (case parse_index part of
        None \<Rightarrow> kvs @ [(part, v)]
      | Some i \<Rightarrow>
          (let smaller = (\<lambda>kv. case parse_index (fst kv) of Some j \<Rightarrow> j < i | None \<Rightarrow> False)
           in takeWhile smaller kvs @ [(part, v)] @ dropWhile smaller kvs))"

text \<open>\<^verbatim>\<open>current[part] = value\<close> in a module, that is in strict mode: a TypeError on
  \<^verbatim>\<open>null\<close>, \<^verbatim>\<open>undefined\<close> and the primitives.  The index at the end of an array
  extends it.  A write that leaves holes in an array or gives it a named property is
  outside the model and answers \<open>Unmodelled\<close>, which is no exception of the program.\<close>

fun js_set :: "jsvalue \<Rightarrow> string \<Rightarrow> jsvalue \<Rightarrow> error + jsvalue" where
  "js_set (Obj kvs) part v =
     Inr (Obj (if map_of kvs part \<noteq> None
               then map (\<lambda>kv. if fst kv = part then (part, v) else kv) kvs
               else add_property kvs part v))"
| "js_set (Arr xs) part v =
     (case parse_index part of
        Some i \<Rightarrow>
          if i < length xs then Inr (Arr (xs[i := v]))
          else if i = length xs then Inr (Arr (xs @ [v]))
          else Inl Unmodelled
      | None \<Rightarrow> Inl Unmodelled)"
| "js_set _ part v = Inl TypeError"

text \<open>\<^verbatim>\<open>delete current[part]\<close>.  Deleting an element of an array leaves a hole and
  answers \<open>Unmodelled\<close>.\<close>

fun js_delete :: "jsvalue \<Rightarrow> string \<Rightarrow> error + jsvalue" where
  "js_delete (Obj kvs) part = Inr (Obj (filter (\<lambda>kv. fst kv \<noteq> part) kvs))"
| "js_delete (Arr xs) part =
     (case parse_index part of
        Some i \<Rightarrow> if i < length xs then Inl Unmodelled else Inr (Arr xs)
      | None \<Rightarrow> if part = ''length'' then Inl TypeError else Inr (Arr xs))"
| "js_delete (Str s) part =
     (if part = ''length'' \<or> (case parse_index part of Some i \<Rightarrow> i < length s | None \<Rightarrow> False)
      then Inl TypeError else Inr (Str s))"
| "js_delete Undefined part = Inl TypeError"
| "js_delete Null part = Inl TypeError"
| "js_delete v part = Inr v"

text \<open>
  The program changes the object it has walked to in place.  On values the change is
  returned and put back at the property it was read from.
\<close>

fun put_back :: "jsvalue \<Rightarrow> string \<Rightarrow> jsvalue \<Rightarrow> jsvalue" where
  "put_back (Obj kvs) part child =
     Obj (map (\<lambda>kv. if fst kv = part then (part, child) else kv) kvs)"
| "put_back (Arr xs) part child =
     (case parse_index part of
        Some i \<Rightarrow> Arr (if i < length xs then xs[i := child] else xs)
      | None \<Rightarrow> Arr xs)"
| "put_back current part child = current"

text \<open>The loop of \<^verbatim>\<open>setNestedProperty\<close> and its final assignment.\<close>

fun set_parts :: "jsvalue \<Rightarrow> string list \<Rightarrow> jsvalue \<Rightarrow> error + jsvalue" where
  "set_parts current [] v = Inr current"
| "set_parts current [final] v = js_set current final v"
| "set_parts current (part # parts) v =
     (case js_in part current of
        Inl e \<Rightarrow> Inl e
      | Inr present \<Rightarrow>
          (case (if present then Inr current else js_set current part (Obj [])) of
             Inl e \<Rightarrow> Inl e
           | Inr current' \<Rightarrow>
               (case set_parts (js_get current' part) parts v of
                  Inl e \<Rightarrow> Inl e
                | Inr child \<Rightarrow> Inr (put_back current' part child))))"

definition setNestedProperty :: "jsvalue \<Rightarrow> string \<Rightarrow> jsvalue \<Rightarrow> error + jsvalue" where
  "setNestedProperty obj path v = set_parts obj (split_dot path) v"

text \<open>The loop of \<^verbatim>\<open>deleteNestedProperty\<close>, which returns when a part is missing.\<close>

fun delete_parts :: "jsvalue \<Rightarrow> string list \<Rightarrow> error + jsvalue" where
  "delete_parts current [] = Inr current"
| "delete_parts current [final] = js_delete current final"
| "delete_parts current (part # parts) =
     (case js_in part current of
        Inl e \<Rightarrow> Inl e
      | Inr present \<Rightarrow>
          if \<not> present then Inr current
          else (case delete_parts (js_get current part) parts of
                  Inl e \<Rightarrow> Inl e
                | Inr child \<Rightarrow> Inr (put_back current part child)))"

definition deleteNestedProperty :: "jsvalue \<Rightarrow> string \<Rightarrow> error + jsvalue" where
  "deleteNestedProperty obj path = delete_parts obj (split_dot path)"

section \<open>Mutation applier\<close>

text \<open>A \<^verbatim>\<open>for ... of\<close> loop that updates \<open>result\<close> and may throw.\<close>

fun for_each :: "('s \<Rightarrow> 'a \<Rightarrow> error + 's) \<Rightarrow> 's \<Rightarrow> 'a list \<Rightarrow> error + 's" where
  "for_each f s [] = Inr s"
| "for_each f s (x # xs) =
     (case f s x of
        Inl e \<Rightarrow> Inl e
      | Inr s' \<Rightarrow> for_each f s' xs)"

text \<open>\<^verbatim>\<open>{ ...document }\<close>: a new object with the own enumerable properties.\<close>

definition spread :: "jsvalue \<Rightarrow> jsvalue" where
  "spread v = Obj (case Object_entries v of Inl e \<Rightarrow> [] | Inr kvs \<Rightarrow> kvs)"

definition non_array :: "string \<Rightarrow> string \<Rightarrow> error" where
  "non_array operator field =
     Error (''Cannot apply '' @ operator @ '' to non-array field: '' @ field)"

text \<open>The body of one case of the \<^verbatim>\<open>switch\<close> in \<^verbatim>\<open>applyUpdate\<close>, for one field of
  the operator.  Every case of the source is a loop over the entries of its operand with
  such a body; \<open>apply_operator\<close> below is that loop, and an operator without a case
  leaves the result as it is.\<close>

definition apply_field :: "host \<Rightarrow> string \<Rightarrow> jsvalue \<Rightarrow> string \<times> jsvalue \<Rightarrow> error + jsvalue" where
  "apply_field h operator result fv =
     (case fv of (field, v) \<Rightarrow>
      if operator = ''$set'' then setNestedProperty result field v
      else if operator = ''$unset'' then deleteNestedProperty result field
      else if operator = ''$inc'' then
        (let found = getNestedProperty result field;
             currentValue = (if truthy found then found else Num 0)
         in case js_plus h currentValue v of
              Inl e \<Rightarrow> Inl e
            | Inr added \<Rightarrow> setNestedProperty result field added)
      else if operator = ''$push'' then
        (let found = getNestedProperty result field;
             currentValue = (if truthy found then found else Arr [])
         in case currentValue of
              Arr xs \<Rightarrow> setNestedProperty result field (Arr (xs @ [v]))
            | _ \<Rightarrow> Inl (non_array ''$push'' field))
      else if operator = ''$pull'' then
        (let currentValue = getNestedProperty result field
         in case currentValue of
              Arr xs \<Rightarrow>
                (case filterE (\<lambda>item.
                         case matchesQuery h (Obj [(''item'', item)]) (Obj [(''item'', v)]) of
                           Inl e \<Rightarrow> Inl e
                         | Inr b \<Rightarrow> Inr (\<not> b)) xs of
                   Inl e \<Rightarrow> Inl e
                 | Inr kept \<Rightarrow> setNestedProperty result field (Arr kept))
            | _ \<Rightarrow> Inl (non_array ''$pull'' field))
      else if operator = ''$addToSet'' then
        (let found = getNestedProperty result field;
             currentValue = (if truthy found then found else Arr [])
         in case currentValue of
              Arr xs \<Rightarrow>
                if \<not> js_includes xs v then setNestedProperty result field (Arr (xs @ [v]))
                else Inr result
            | _ \<Rightarrow> Inl (non_array ''$addToSet'' field))
      else if operator = ''$pop'' then
        (let currentValue = getNestedProperty result field
         in case currentValue of
              Arr xs \<Rightarrow>
                if strict_eq v (Num 1) then
                  setNestedProperty result field (Arr (js_slice 0 (Some (- 1)) xs))
                else if strict_eq v (Num (- 1)) then
                  setNestedProperty result field (Arr (js_slice 1 None xs))
                else Inr result
            | _ \<Rightarrow> Inl (non_array ''$pop'' field))
      else Inr result)"

definition apply_operator :: "host \<Rightarrow> jsvalue \<Rightarrow> string \<times> jsvalue \<Rightarrow> error + jsvalue" where
  "apply_operator h result entry =
     (case entry of (operator, operand) \<Rightarrow>
      if operator \<in> {''$set'', ''$unset'', ''$inc'', ''$push'', ''$pull'', ''$addToSet'', ''$pop''}
      then (case Object_entries operand of
              Inl e \<Rightarrow> Inl e
            | Inr fvs \<Rightarrow> for_each (apply_field h operator) result fvs)
      else Inr result)"

definition applyUpdate :: "host \<Rightarrow> jsvalue \<Rightarrow> jsvalue \<Rightarrow> error + jsvalue" where
  "applyUpdate h document update =
     (case Object_entries update of
        Inl e \<Rightarrow> Inl e
      | Inr operators \<Rightarrow> for_each (apply_operator h) (spread document) operators)"

section \<open>Updating one document\<close>



section \<open>The mutation applier on a store of objects\<close>

text \<open>
  Whether \<^verbatim>\<open>applyUpdate\<close> changes the document it is given depends on which objects
  the copy shares with it, and values cannot tell.  Here an object or array lives at an
  address of a store, a value is a primitive or a reference, and the path accessor writes
  into the store as the program writes into the object.  A new object takes the next free
  address.
\<close>

datatype hval = HUndefined | HNull | HBool bool | HNum int | HStr string | HRef nat

datatype hobj = HObj "(string \<times> hval) list" | HArr "hval list"

type_synonym heap = "hobj list"

definition h_alloc :: "hobj \<Rightarrow> heap \<Rightarrow> hval \<times> heap" where
  "h_alloc obj H = (HRef (length H), H @ [obj])"

definition h_lookup :: "heap \<Rightarrow> hval \<Rightarrow> hobj option" where
  "h_lookup H v = (case v of HRef a \<Rightarrow> if a < length H then Some (H ! a) else None | _ \<Rightarrow> None)"

text \<open>Putting a value into the store, as an object literal or \<^verbatim>\<open>JSON.parse\<close> does, and
  reading one back.  Reading follows references and is bounded by the number of objects.\<close>

fun store :: "jsvalue \<Rightarrow> heap \<Rightarrow> hval \<times> heap"
  and store_list :: "jsvalue list \<Rightarrow> heap \<Rightarrow> hval list \<times> heap"
  and store_fields :: "(string \<times> jsvalue) list \<Rightarrow> heap \<Rightarrow> (string \<times> hval) list \<times> heap"
where
  "store Undefined H = (HUndefined, H)"
| "store Null H = (HNull, H)"
| "store (Bool b) H = (HBool b, H)"
| "store (Num n) H = (HNum n, H)"
| "store (Str s) H = (HStr s, H)"
| "store (Arr xs) H = (case store_list xs H of (vs, H') \<Rightarrow> h_alloc (HArr vs) H')"
| "store (Obj kvs) H = (case store_fields kvs H of (fs, H') \<Rightarrow> h_alloc (HObj fs) H')"
| "store_list [] H = ([], H)"
| "store_list (x # xs) H =
     (case store x H of (v, H') \<Rightarrow>
        (case store_list xs H' of (vs, H'') \<Rightarrow> (v # vs, H'')))"
| "store_fields [] H = ([], H)"
| "store_fields (kv # kvs) H =
     (case store (snd kv) H of (v, H') \<Rightarrow>
        (case store_fields kvs H' of (fs, H'') \<Rightarrow> ((fst kv, v) # fs, H'')))"

fun all_some :: "'a option list \<Rightarrow> 'a list option" where
  "all_some [] = Some []"
| "all_some (x # xs) =
     (case x of
        None \<Rightarrow> None
      | Some v \<Rightarrow> (case all_some xs of None \<Rightarrow> None | Some vs \<Rightarrow> Some (v # vs)))"

fun load :: "nat \<Rightarrow> heap \<Rightarrow> hval \<Rightarrow> jsvalue option" where
  "load fuel H HUndefined = Some Undefined"
| "load fuel H HNull = Some Null"
| "load fuel H (HBool b) = Some (Bool b)"
| "load fuel H (HNum n) = Some (Num n)"
| "load fuel H (HStr s) = Some (Str s)"
| "load 0 H (HRef a) = None"
| "load (Suc fuel) H (HRef a) =
     (case h_lookup H (HRef a) of
        None \<Rightarrow> None
      | Some (HArr vs) \<Rightarrow> map_option Arr (all_some (map (load fuel H) vs))
      | Some (HObj fs) \<Rightarrow>
          map_option (\<lambda>xs. Obj (zip (map fst fs) xs)) (all_some (map (\<lambda>f. load fuel H (snd f)) fs)))"

definition load_value :: "heap \<Rightarrow> hval \<Rightarrow> jsvalue option" where
  "load_value H v = load (Suc (length H)) H v"

subsection \<open>Primitive operations on the store\<close>

definition h_entries :: "heap \<Rightarrow> hval \<Rightarrow> error + (string \<times> hval) list" where
  "h_entries H v =
     (case v of
        HUndefined \<Rightarrow> Inl TypeError
      | HNull \<Rightarrow> Inl TypeError
      | HStr s \<Rightarrow> Inr (zip (map string_of_nat [0 ..< length s]) (map (\<lambda>c. HStr [c]) s))
      | HRef a \<Rightarrow>
          (case h_lookup H v of
             Some (HObj fs) \<Rightarrow> Inr fs
           | Some (HArr vs) \<Rightarrow> Inr (zip (map string_of_nat [0 ..< length vs]) vs)
           | None \<Rightarrow> Inr [])
      | _ \<Rightarrow> Inr [])"

definition h_truthy :: "hval \<Rightarrow> bool" where
  "h_truthy v =
     (case v of
        HUndefined \<Rightarrow> False
      | HNull \<Rightarrow> False
      | HBool b \<Rightarrow> b
      | HNum n \<Rightarrow> n \<noteq> 0
      | HStr s \<Rightarrow> s \<noteq> []
      | HRef a \<Rightarrow> True)"

text \<open>\<^verbatim>\<open>current[part]\<close>\<close>

definition h_get :: "heap \<Rightarrow> hval \<Rightarrow> string \<Rightarrow> hval" where
  "h_get H current part =
     (case current of
        HStr s \<Rightarrow>
          (if part = ''length'' then HNum (int (length s))
           else case parse_index part of
                  Some i \<Rightarrow> if i < length s then HStr [s ! i] else HUndefined
                | None \<Rightarrow> HUndefined)
      | HRef a \<Rightarrow>
          (case h_lookup H current of
             Some (HObj fs) \<Rightarrow> (case map_of fs part of Some v \<Rightarrow> v | None \<Rightarrow> HUndefined)
           | Some (HArr vs) \<Rightarrow>
               (if part = ''length'' then HNum (int (length vs))
                else case parse_index part of
                       Some i \<Rightarrow> if i < length vs then vs ! i else HUndefined
                     | None \<Rightarrow> HUndefined)
           | None \<Rightarrow> HUndefined)
      | _ \<Rightarrow> HUndefined)"

text \<open>\<^verbatim>\<open>part in current\<close>\<close>

definition h_in :: "heap \<Rightarrow> string \<Rightarrow> hval \<Rightarrow> error + bool" where
  "h_in H part current =
     (case h_lookup H current of
        Some (HObj fs) \<Rightarrow> Inr (map_of fs part \<noteq> None)
      | Some (HArr vs) \<Rightarrow>
          Inr (part = ''length'' \<or>
               (case parse_index part of Some i \<Rightarrow> i < length vs | None \<Rightarrow> False))
      | None \<Rightarrow> Inl TypeError)"

text \<open>\<^verbatim>\<open>current[part] = value\<close>: the object at the address is changed where it is.\<close>

definition h_set :: "heap \<Rightarrow> hval \<Rightarrow> string \<Rightarrow> hval \<Rightarrow> error + heap" where
  "h_set H current part v =
     (case current of
        HRef a \<Rightarrow>
          (case h_lookup H current of
             Some (HObj fs) \<Rightarrow>
               Inr (H[a := HObj (if map_of fs part \<noteq> None
                                 then map (\<lambda>kv. if fst kv = part then (part, v) else kv) fs
                                 else add_property fs part v)])
           | Some (HArr vs) \<Rightarrow>
               (case parse_index part of
                  Some i \<Rightarrow>
                    if i < length vs then Inr (H[a := HArr (vs[i := v])])
                    else if i = length vs then Inr (H[a := HArr (vs @ [v])])
                    else Inl Unmodelled
                | None \<Rightarrow> Inl Unmodelled)
           | None \<Rightarrow> Inl TypeError)
      | _ \<Rightarrow> Inl TypeError)"

text \<open>\<^verbatim>\<open>delete current[part]\<close>\<close>

definition h_delete :: "heap \<Rightarrow> hval \<Rightarrow> string \<Rightarrow> error + heap" where
  "h_delete H current part =
     (case current of
        HUndefined \<Rightarrow> Inl TypeError
      | HNull \<Rightarrow> Inl TypeError
      | HStr s \<Rightarrow>
          (if part = ''length'' \<or>
              (case parse_index part of Some i \<Rightarrow> i < length s | None \<Rightarrow> False)
           then Inl TypeError else Inr H)
      | HRef a \<Rightarrow>
          (case h_lookup H current of
             Some (HObj fs) \<Rightarrow> Inr (H[a := HObj (filter (\<lambda>kv. fst kv \<noteq> part) fs)])
           | Some (HArr vs) \<Rightarrow>
               (case parse_index part of
                  Some i \<Rightarrow> if i < length vs then Inl Unmodelled else Inr H
                | None \<Rightarrow> if part = ''length'' then Inl TypeError else Inr H)
           | None \<Rightarrow> Inr H)
      | _ \<Rightarrow> Inr H)"

subsection \<open>Path accessor on the store\<close>

fun get_parts_st :: "heap \<Rightarrow> hval \<Rightarrow> string list \<Rightarrow> hval" where
  "get_parts_st H current [] = current"
| "get_parts_st H current (part # parts) =
     (if current = HNull \<or> current = HUndefined then HUndefined
      else get_parts_st H (h_get H current part) parts)"

definition getNestedProperty_st :: "heap \<Rightarrow> hval \<Rightarrow> string \<Rightarrow> hval" where
  "getNestedProperty_st H obj path = get_parts_st H obj (split_dot path)"

fun set_parts_st :: "heap \<Rightarrow> hval \<Rightarrow> string list \<Rightarrow> hval \<Rightarrow> error + heap" where
  "set_parts_st H current [] v = Inr H"
| "set_parts_st H current [final] v = h_set H current final v"
| "set_parts_st H current (part # parts) v =
     (case h_in H part current of
        Inl e \<Rightarrow> Inl e
      | Inr present \<Rightarrow>
          (case (if present then Inr H
                 else (case h_alloc (HObj []) H of (fresh, H') \<Rightarrow> h_set H' current part fresh)) of
             Inl e \<Rightarrow> Inl e
           | Inr H' \<Rightarrow> set_parts_st H' (h_get H' current part) parts v))"

definition setNestedProperty_st :: "heap \<Rightarrow> hval \<Rightarrow> string \<Rightarrow> hval \<Rightarrow> error + heap" where
  "setNestedProperty_st H obj path v = set_parts_st H obj (split_dot path) v"

fun delete_parts_st :: "heap \<Rightarrow> hval \<Rightarrow> string list \<Rightarrow> error + heap" where
  "delete_parts_st H current [] = Inr H"
| "delete_parts_st H current [final] = h_delete H current final"
| "delete_parts_st H current (part # parts) =
     (case h_in H part current of
        Inl e \<Rightarrow> Inl e
      | Inr present \<Rightarrow>
          if \<not> present then Inr H
          else delete_parts_st H (h_get H current part) parts)"

definition deleteNestedProperty_st :: "heap \<Rightarrow> hval \<Rightarrow> string \<Rightarrow> error + heap" where
  "deleteNestedProperty_st H obj path = delete_parts_st H obj (split_dot path)"

subsection \<open>\<^verbatim>\<open>applyUpdate\<close> on the store\<close>

text \<open>\<^verbatim>\<open>{ ...document }\<close>: a new object; the property values, references included, are
  those of the document.\<close>

definition spread_st :: "heap \<Rightarrow> hval \<Rightarrow> hval \<times> heap" where
  "spread_st H document =
     h_alloc (HObj (case h_entries H document of Inl e \<Rightarrow> [] | Inr fs \<Rightarrow> fs)) H"

text \<open>The element test of \<^verbatim>\<open>$pull\<close> and the sum of \<^verbatim>\<open>$inc\<close> look at values: the
  operands are read back from the store and handed to the evaluator and to \<^verbatim>\<open>+\<close>.\<close>

definition pull_keeps :: "host \<Rightarrow> heap \<Rightarrow> hval \<Rightarrow> hval \<Rightarrow> error + bool" where
  "pull_keeps h H operand item =
     (case (load_value H item, load_value H operand) of
        (Some i, Some v) \<Rightarrow>
          (case matchesQuery h (Obj [(''item'', i)]) (Obj [(''item'', v)]) of
             Inl e \<Rightarrow> Inl e
           | Inr b \<Rightarrow> Inr (\<not> b))
      | _ \<Rightarrow> Inl Unmodelled)"

definition plus_st :: "host \<Rightarrow> heap \<Rightarrow> hval \<Rightarrow> hval \<Rightarrow> error + (hval \<times> heap)" where
  "plus_st h H a b =
     (case (load_value H a, load_value H b) of
        (Some x, Some y) \<Rightarrow>
          (case js_plus h x y of
             Inl e \<Rightarrow> Inl e
           | Inr r \<Rightarrow> Inr (store r H))
      | _ \<Rightarrow> Inl Unmodelled)"

definition h_array :: "heap \<Rightarrow> hval \<Rightarrow> hval list option" where
  "h_array H v = (case h_lookup H v of Some (HArr vs) \<Rightarrow> Some vs | _ \<Rightarrow> None)"

definition apply_field_st ::
  "host \<Rightarrow> string \<Rightarrow> hval \<Rightarrow> heap \<Rightarrow> string \<times> hval \<Rightarrow> error + heap" where
  "apply_field_st h operator result H fv =
     (case fv of (field, v) \<Rightarrow>
      if operator = ''$set'' then setNestedProperty_st H result field v
      else if operator = ''$unset'' then deleteNestedProperty_st H result field
      else if operator = ''$inc'' then
        (let found = getNestedProperty_st H result field;
             currentValue = (if h_truthy found then found else HNum 0)
         in case plus_st h H currentValue v of
              Inl e \<Rightarrow> Inl e
            | Inr (added, H') \<Rightarrow> setNestedProperty_st H' result field added)
      else if operator = ''$push'' then
        (let found = getNestedProperty_st H result field
         in case (if h_truthy found then (found, H) else h_alloc (HArr []) H) of
              (currentValue, H') \<Rightarrow>
                (case h_array H' currentValue of
                   Some xs \<Rightarrow>
                     (case h_alloc (HArr (xs @ [v])) H' of
                        (extended, H'') \<Rightarrow> setNestedProperty_st H'' result field extended)
                 | None \<Rightarrow> Inl (non_array ''$push'' field)))
      else if operator = ''$pull'' then
        (let currentValue = getNestedProperty_st H result field
         in case h_array H currentValue of
              Some xs \<Rightarrow>
                (case filterE (pull_keeps h H v) xs of
                   Inl e \<Rightarrow> Inl e
                 | Inr kept \<Rightarrow>
                     (case h_alloc (HArr kept) H of
                        (filtered, H') \<Rightarrow> setNestedProperty_st H' result field filtered))
            | None \<Rightarrow> Inl (non_array ''$pull'' field))
      else if operator = ''$addToSet'' then
        (let found = getNestedProperty_st H result field
         in case (if h_truthy found then (found, H) else h_alloc (HArr []) H) of
              (currentValue, H') \<Rightarrow>
                (case h_array H' currentValue of
                   Some xs \<Rightarrow>
                     if v \<notin> set xs then
                       (case h_alloc (HArr (xs @ [v])) H' of
                          (extended, H'') \<Rightarrow> setNestedProperty_st H'' result field extended)
                     else Inr H'
                 | None \<Rightarrow> Inl (non_array ''$addToSet'' field)))
      else if operator = ''$pop'' then
        (let currentValue = getNestedProperty_st H result field
         in case h_array H currentValue of
              Some xs \<Rightarrow>
                if v = HNum 1 then
                  (case h_alloc (HArr (js_slice 0 (Some (- 1)) xs)) H of
                     (shorter, H') \<Rightarrow> setNestedProperty_st H' result field shorter)
                else if v = HNum (- 1) then
                  (case h_alloc (HArr (js_slice 1 None xs)) H of
                     (shorter, H') \<Rightarrow> setNestedProperty_st H' result field shorter)
                else Inr H
            | None \<Rightarrow> Inl (non_array ''$pop'' field))
      else Inr H)"

definition apply_operator_st :: "host \<Rightarrow> hval \<Rightarrow> heap \<Rightarrow> string \<times> hval \<Rightarrow> error + heap" where
  "apply_operator_st h result H entry =
     (case entry of (operator, operand) \<Rightarrow>
      if operator \<in> {''$set'', ''$unset'', ''$inc'', ''$push'', ''$pull'', ''$addToSet'', ''$pop''}
      then (case h_entries H operand of
              Inl e \<Rightarrow> Inl e
            | Inr fvs \<Rightarrow> for_each (apply_field_st h operator result) H fvs)
      else Inr H)"

text \<open>The result is the address of the copy and the store after the update.\<close>

definition applyUpdate_st :: "host \<Rightarrow> heap \<Rightarrow> hval \<Rightarrow> hval \<Rightarrow> error + (hval \<times> heap)" where
  "applyUpdate_st h H document update =
     (case h_entries H update of
        Inl e \<Rightarrow> Inl e
      | Inr operators \<Rightarrow>
          (case spread_st H document of
             (result, H') \<Rightarrow>
               (case for_each (apply_operator_st h result) H' operators of
                  Inl e \<Rightarrow> Inl e
                | Inr H'' \<Rightarrow> Inr (result, H''))))"

section \<open>Sorting\<close>

text \<open>\<open>a\<close> does not come after \<open>b\<close>: the comparator returns a number that is not
  positive.\<close>

definition cmp_le :: "('a \<Rightarrow> 'a \<Rightarrow> error + int) \<Rightarrow> 'a \<Rightarrow> 'a \<Rightarrow> bool" where
  "cmp_le cmp a b = (case cmp a b of Inl e \<Rightarrow> False | Inr c \<Rightarrow> c \<le> 0)"

text \<open>
  The comparator is a consistent ordering of the elements of \<open>xs\<close>: it raises on no
  pair, it says \<open>a\<close> before \<open>b\<close> exactly when it says \<open>b\<close> after \<open>a\<close>, and ``not
  after'' is transitive.
\<close>

definition consistent_on :: "('a \<Rightarrow> 'a \<Rightarrow> error + int) \<Rightarrow> 'a list \<Rightarrow> bool" where
  "consistent_on cmp xs =
     ((\<forall>a \<in> set xs. \<forall>b \<in> set xs.
         case cmp a b of
           Inl e \<Rightarrow> False
         | Inr c \<Rightarrow> (case cmp b a of Inl e \<Rightarrow> False | Inr c' \<Rightarrow> (c < 0) = (0 < c')))
      \<and> (\<forall>a \<in> set xs. \<forall>b \<in> set xs. \<forall>d \<in> set xs.
            cmp_le cmp a b \<and> cmp_le cmp b d \<longrightarrow> cmp_le cmp a d))"


text \<open>A sort that conforms, for the hosts of the examples: stable insertion, from the right
  end of the list.  An exception of the comparator ends the sort.\<close>

fun insert_sorted :: "('a \<Rightarrow> 'a \<Rightarrow> error + int) \<Rightarrow> 'a \<Rightarrow> 'a list \<Rightarrow> error + 'a list" where
  "insert_sorted cmp x [] = Inr [x]"
| "insert_sorted cmp x (y # ys) =
     (case cmp x y of
        Inl e \<Rightarrow> Inl e
      | Inr c \<Rightarrow>
          if c \<le> 0 then Inr (x # y # ys)
          else (case insert_sorted cmp x ys of
                  Inl e \<Rightarrow> Inl e
                | Inr zs \<Rightarrow> Inr (y # zs)))"

fun insertion_sort :: "('a \<Rightarrow> 'a \<Rightarrow> error + int) \<Rightarrow> 'a list \<Rightarrow> error + 'a list" where
  "insertion_sort cmp [] = Inr []"
| "insertion_sort cmp (x # xs) =
     (case insertion_sort cmp xs of
        Inl e \<Rightarrow> Inl e
      | Inr ys \<Rightarrow> insert_sorted cmp x ys)"




text \<open>
  The entries of an object written with the properties \<open>written\<close>, of distinct keys, in
  the order in which \<^verbatim>\<open>Object.entries\<close> enumerates them: the keys that are array
  indices first, in ascending order, then the other keys in the order of writing.
\<close>

definition literal_entries :: "(string \<times> 'v) list \<Rightarrow> (string \<times> 'v) list" where
  "literal_entries written = fold (\<lambda>kv acc. add_property acc (fst kv) (snd kv)) written []"

section \<open>Where an exception of the evaluator can come from\<close>

text \<open>A query is free of null sub-queries when neither it nor any element of a
  \<^verbatim>\<open>$and\<close>, \<^verbatim>\<open>$or\<close> or \<^verbatim>\<open>$nor\<close> array in it is \<^verbatim>\<open>null\<close> or \<^verbatim>\<open>undefined\<close>.\<close>

fun nullish_free :: "jsvalue \<Rightarrow> bool" where
  "nullish_free Undefined = False"
| "nullish_free Null = False"
| "nullish_free (Obj kvs) =
     (\<forall>(k, v) \<in> set kvs. k \<in> {''$and'', ''$or'', ''$nor''} \<longrightarrow>
        (case v of Arr qs \<Rightarrow> (\<forall>q \<in> set qs. nullish_free q) | _ \<Rightarrow> True))"
| "nullish_free _ = True"

text \<open>
  The query \<open>q\<close>, evaluated on the document \<open>d\<close>, applies the operator \<open>op\<close> with
  the operand \<open>x\<close> to the value \<open>w\<close>: in a field condition of \<open>q\<close>, where \<open>w\<close> is the
  value of the field in \<open>d\<close>; in a sub-query under \<^verbatim>\<open>$and\<close>, \<^verbatim>\<open>$or\<close> or \<^verbatim>\<open>$nor\<close>; or
  under a \<^verbatim>\<open>$not\<close> that \<open>q\<close> applies, which evaluates its operand as the query
  \<^verbatim>\<open>{value: operand}\<close> on the document \<^verbatim>\<open>{value: value}\<close>.
\<close>

inductive query_applies :: "jsvalue \<Rightarrow> jsvalue \<Rightarrow> jsvalue \<Rightarrow> string \<Rightarrow> jsvalue \<Rightarrow> bool" where
  field:
    "Object_entries q = Inr es \<Longrightarrow> (key, v) \<in> set es \<Longrightarrow> \<not> startsWith_dollar key \<Longrightarrow>
     v \<noteq> Null \<and> typeof v = ''object'' \<Longrightarrow> Object_entries v = Inr ops \<Longrightarrow>
     (op, x) \<in> set ops \<Longrightarrow> query_applies d q (getNestedProperty d key) op x"
| composed:
    "Object_entries q = Inr es \<Longrightarrow> (key, Arr qs) \<in> set es \<Longrightarrow>
     key \<in> {''$and'', ''$or'', ''$nor''} \<Longrightarrow> q' \<in> set qs \<Longrightarrow>
     query_applies d q' w op x \<Longrightarrow> query_applies d q w op x"
| negated:
    "query_applies d q w ''$not'' y \<Longrightarrow>
     query_applies (Obj [(''value'', w)]) (Obj [(''value'', y)]) w' op x \<Longrightarrow>
     query_applies d q w' op x"

definition rel_of :: "string \<Rightarrow> relop option" where
  "rel_of op =
     (if op = ''$gt'' then Some Gt
      else if op = ''$gte'' then Some Ge
      else if op = ''$lt'' then Some Lt
      else if op = ''$lte'' then Some Le
      else None)"

text \<open>The host raises \<open>e\<close> when the operator \<open>op\<close> with the operand \<open>x\<close> meets the
  value \<open>w\<close>: in \<^verbatim>\<open>new RegExp(x).test(w)\<close>, or in the coercing comparison of \<open>w\<close>
  with \<open>x\<close>.\<close>

definition operator_raises :: "host \<Rightarrow> jsvalue \<Rightarrow> string \<Rightarrow> jsvalue \<Rightarrow> error \<Rightarrow> bool" where
  "operator_raises h w op x e =
     ((op = ''$regex'' \<and> RegExp_test h x w = Inl e)
      \<or> (\<exists>r. rel_of op = Some r \<and> coerce_rel h r w x = Inl e))"

text \<open>The exception \<open>e\<close> is raised by the host in an operator that \<open>q\<close> applies on
  \<open>d\<close>.\<close>

definition raised_in :: "host \<Rightarrow> jsvalue \<Rightarrow> jsvalue \<Rightarrow> error \<Rightarrow> bool" where
  "raised_in h d q e = (\<exists>w op x. query_applies d q w op x \<and> operator_raises h w op x e)"

text \<open>
  The evaluator on a call stack that admits \<open>frames\<close> more nested calls of
  \<^verbatim>\<open>matchesQuery\<close> and \<^verbatim>\<open>matchesOperator\<close>: a call for which no frame is left
  raises the RangeError of the engine, and every call leaves one frame less to the calls
  it makes.  \<open>matchesQuery\<close> above is the evaluator on a stack without end.
\<close>

fun matchesQuery_stack :: "host \<Rightarrow> nat \<Rightarrow> jsvalue \<Rightarrow> jsvalue \<Rightarrow> error + bool"
  and matchesOperator_stack :: "host \<Rightarrow> nat \<Rightarrow> jsvalue \<Rightarrow> string \<Rightarrow> jsvalue \<Rightarrow> error + bool"
where
  "matchesQuery_stack h 0 document query = Inl RangeError"
| "matchesQuery_stack h (Suc frames) document query =
     (case Object_entries query of
        Inl e \<Rightarrow> Inl e
      | Inr entries \<Rightarrow>
          every (\<lambda>(key, value).
            if startsWith_dollar key then
              (if key = ''$and'' then
                 (case value of
                    Arr subQueries \<Rightarrow>
                      every (\<lambda>subQuery. matchesQuery_stack h frames document subQuery) subQueries
                  | _ \<Rightarrow> Inr False)
               else if key = ''$or'' then
                 (case value of
                    Arr subQueries \<Rightarrow>
                      some (\<lambda>subQuery. matchesQuery_stack h frames document subQuery) subQueries
                  | _ \<Rightarrow> Inr False)
               else if key = ''$nor'' then
                 (case value of
                    Arr subQueries \<Rightarrow>
                      (case some (\<lambda>subQuery. matchesQuery_stack h frames document subQuery)
                              subQueries of
                         Inl e \<Rightarrow> Inl e
                       | Inr b \<Rightarrow> Inr (\<not> b))
                  | _ \<Rightarrow> Inr False)
               else Inr False)
            else
              (let docValue = getNestedProperty document key in
               if value \<noteq> Null \<and> typeof value = ''object'' then
                 (case Object_entries value of
                    Inl e \<Rightarrow> Inl e
                  | Inr ops \<Rightarrow>
                      every (\<lambda>(op, opValue). matchesOperator_stack h frames docValue op opValue) ops)
               else matchesOperator_stack h frames docValue ''$eq'' value))
          entries)"
| "matchesOperator_stack h 0 value operator operatorValue = Inl RangeError"
| "matchesOperator_stack h (Suc frames) value operator operatorValue =
     (if operator = ''$eq'' then Inr (strict_eq value operatorValue)
      else if operator = ''$gt'' then js_rel h Gt value operatorValue
      else if operator = ''$gte'' then js_rel h Ge value operatorValue
      else if operator = ''$lt'' then js_rel h Lt value operatorValue
      else if operator = ''$lte'' then js_rel h Le value operatorValue
      else if operator = ''$ne'' then Inr (\<not> strict_eq value operatorValue)
      else if operator = ''$in'' then
        (case operatorValue of Arr xs \<Rightarrow> Inr (js_includes xs value) | _ \<Rightarrow> Inr False)
      else if operator = ''$nin'' then
        (case operatorValue of Arr xs \<Rightarrow> Inr (\<not> js_includes xs value) | _ \<Rightarrow> Inr False)
      else if operator = ''$not'' then
        (case matchesQuery_stack h frames (Obj [(''value'', value)])
                (Obj [(''value'', operatorValue)]) of
           Inl e \<Rightarrow> Inl e
         | Inr b \<Rightarrow> Inr (\<not> b))
      else if operator = ''$exists'' then
        Inr (if truthy operatorValue then value \<noteq> Undefined else value = Undefined)
      else if operator = ''$type'' then Inr (strict_eq (Str (typeof value)) operatorValue)
      else if operator = ''$regex'' then RegExp_test h operatorValue value
      else Inr False)"

declare matchesQuery_stack.simps [simp del] matchesOperator_stack.simps [simp del]

text \<open>A host for the concrete examples: it rejects every regular expression and every
  JSON text, its coercions answer \<^verbatim>\<open>false\<close> and \<^verbatim>\<open>undefined\<close>, and it sorts by
  stable insertion.\<close>

definition quiet_host :: host where
  "quiet_host = \<lparr> RegExp_test = (\<lambda>p v. Inl SyntaxError),
                   coerce_rel = (\<lambda>op a b. Inr False),
                   coerce_plus = (\<lambda>a b. Inr Undefined),
                   JSON_parse = (\<lambda>s. Inl SyntaxError),
                   JSON_stringify = (\<lambda>v. []),
                   Array_sort = insertion_sort \<rparr>"

section \<open>A small store for the concrete examples\<close>

definition ann :: jsvalue where
  "ann = Obj [(''_id'', Str ''1''), (''name'', Str ''Ann''), (''value'', Num 10)]"

definition bob :: jsvalue where
  "bob = Obj [(''_id'', Str ''2''), (''name'', Str ''Bob''), (''value'', Num 20)]"

definition ann_raised :: jsvalue where
  "ann_raised = Obj [(''_id'', Str ''1''), (''name'', Str ''Ann''), (''value'', Num 15)]"

definition ann_json :: string where
  \<open>ann_json = ''{"_id":"1","name":"Ann","value":10}''\<close>

definition bob_json :: string where
  \<open>bob_json = ''{"_id":"2","name":"Bob","value":20}''\<close>

definition ann_raised_json :: string where
  \<open>ann_raised_json = ''{"_id":"1","name":"Ann","value":15}''\<close>

text \<open>Ann after her \<^verbatim>\<open>_id\<close> has been set to the key of Bob's row, and after her value
  has then been raised.\<close>

definition ann_moved :: jsvalue where
  "ann_moved = Obj [(''_id'', Str ''2''), (''name'', Str ''Ann''), (''value'', Num 10)]"

definition ann_moved_raised :: jsvalue where
  "ann_moved_raised = Obj [(''_id'', Str ''2''), (''name'', Str ''Ann''), (''value'', Num 15)]"

definition ann_moved_json :: string where
  \<open>ann_moved_json = ''{"_id":"2","name":"Ann","value":10}''\<close>

definition ann_moved_raised_json :: string where
  \<open>ann_moved_raised_json = ''{"_id":"2","name":"Ann","value":15}''\<close>

text \<open>The host of the examples knows the JSON texts of these documents.\<close>

definition example_host :: host where
  "example_host = quiet_host
     \<lparr> JSON_parse := (\<lambda>s. if s = ann_json then Inr ann
                          else if s = bob_json then Inr bob
                          else if s = ann_moved_json then Inr ann_moved
                          else Inl SyntaxError),
       JSON_stringify := (\<lambda>v. if v = ann_raised then ann_raised_json
                              else if v = ann then ann_json
                              else if v = bob then bob_json
                              else if v = ann_moved then ann_moved_json
                              else if v = ann_moved_raised then ann_moved_raised_json
                              else ''null'') \<rparr>"

definition people :: storage where
  "people = \<lparr> rows = [\<lparr>sd_id = ''1'', sd_collection = ''people'', sd_data = ann_json\<rparr>,
                       \<lparr>sd_id = ''2'', sd_collection = ''people'', sd_data = bob_json\<rparr>],
              scans = 0 \<rparr>"










text \<open>A document with a nested object, an update that writes through a dotted path, and
  the store that holds both.\<close>

definition nested_doc :: jsvalue where
  "nested_doc = Obj [(''_id'', Str ''1''), (''a'', Obj [(''b'', Num 1)])]"

definition set_nested :: jsvalue where
  "set_nested = Obj [(''$set'', Obj [(''a.b'', Num 2)])]"

definition nested_heap :: heap where
  "nested_heap = [HObj [(''b'', HNum 1)], HObj [(''_id'', HStr ''1''), (''a'', HRef 0)],
                  HObj [(''a.b'', HNum 2)], HObj [(''$set'', HRef 2)]]"

section \<open>Properties of the predicate evaluator\<close>

lemma every_Inl: "every f xs = Inl e \<Longrightarrow> \<exists>x \<in> set xs. f x = Inl e"
  by (induction xs) (auto split: sum.splits if_splits)

lemma some_Inl: "some f xs = Inl e \<Longrightarrow> \<exists>x \<in> set xs. f x = Inl e"
  by (induction xs) (auto split: sum.splits if_splits)

lemma string_of_nat_head:
  "string_of_nat n \<noteq> [] \<and> is_digit (hd (string_of_nat n))"
proof (induction n rule: string_of_nat.induct)
  case (1 n)
  show ?case
  proof (cases "n < 10")
    case True
    then have "string_of_nat n = [char_of (48 + n)]"
      by (simp add: string_of_nat.simps)
    moreover from True have "(of_char (char_of (48 + n)) :: nat) = 48 + n"
      by simp
    ultimately show ?thesis using True by (simp add: is_digit_def)
  next
    case False
    then have "string_of_nat n = string_of_nat (n div 10) @ [char_of (48 + n mod 10)]"
      by (subst string_of_nat.simps) simp
    with 1 False show ?thesis by simp
  qed
qed

lemma indexed_key_not_dollar:
  assumes "(k, v) \<in> set (indexed xs)"
  shows "\<not> startsWith_dollar k"
proof -
  from assms obtain i where "k = string_of_nat i"
    by (auto simp: indexed_def dest!: set_zip_leftD)
  with string_of_nat_head [of i] show ?thesis
    by (cases "string_of_nat i") (auto simp: startsWith_dollar_def is_digit_def)
qed

lemma entries_dollar_Obj:
  assumes "Object_entries q = Inr es" "(k, v) \<in> set es" "startsWith_dollar k"
  shows "q = Obj es"
  using assms indexed_key_not_dollar by (cases q) auto


lemma js_rel_Inl: "js_rel h r a b = Inl e \<Longrightarrow> coerce_rel h r a b = Inl e"
  by (auto simp: js_rel_def split: jsvalue.splits)

lemma nullish_free_value: "nullish_free (Obj [(''value'', x)])"
  by simp

lemma stack_raise:
  "(\<forall>d q e. matchesQuery_stack h n d q = Inl e \<longrightarrow>
       raised_in h d q e \<or> (e = TypeError \<and> \<not> nullish_free q)
       \<or> (e = RangeError \<and> n \<le> 2 * depth q + 2))
   \<and> (\<forall>v op x e. matchesOperator_stack h n v op x = Inl e \<longrightarrow>
       operator_raises h v op x e
       \<or> (op = ''$not'' \<and> raised_in h (Obj [(''value'', v)]) (Obj [(''value'', x)]) e)
       \<or> (e = RangeError \<and> n \<le> (if op = ''$not'' then 2 * depth x + 5 else 0)))"
proof (induction n)
  case 0
  show ?case by (simp add: matchesQuery_stack.simps matchesOperator_stack.simps)
next
  case (Suc n)
  then have ihQ: "\<And>d q e. matchesQuery_stack h n d q = Inl e \<Longrightarrow>
       raised_in h d q e \<or> (e = TypeError \<and> \<not> nullish_free q)
       \<or> (e = RangeError \<and> n \<le> 2 * depth q + 2)"
    and ihO: "\<And>v op x e. matchesOperator_stack h n v op x = Inl e \<Longrightarrow>
       operator_raises h v op x e
       \<or> (op = ''$not'' \<and> raised_in h (Obj [(''value'', v)]) (Obj [(''value'', x)]) e)
       \<or> (e = RangeError \<and> n \<le> (if op = ''$not'' then 2 * depth x + 5 else 0))"
    by blast+
  have partQ: "raised_in h document query e \<or> (e = TypeError \<and> \<not> nullish_free query)
       \<or> (e = RangeError \<and> Suc n \<le> 2 * depth query + 2)"
    if raised: "matchesQuery_stack h (Suc n) document query = Inl e" for document query e
  proof (cases "Object_entries query")
    case (Inl e')
    with raised have "e = e'" by (simp add: matchesQuery_stack.simps)
    with Inl show ?thesis by (cases query) auto
  next
    case (Inr es)
    with raised obtain key "value" where mem: "(key, value) \<in> set es"
      and entry: "(if startsWith_dollar key then
              (if key = ''$and'' then
                 (case value of
                    Arr subQueries \<Rightarrow>
                      every (\<lambda>subQuery. matchesQuery_stack h n document subQuery) subQueries
                  | _ \<Rightarrow> Inr False)
               else if key = ''$or'' then
                 (case value of
                    Arr subQueries \<Rightarrow>
                      some (\<lambda>subQuery. matchesQuery_stack h n document subQuery) subQueries
                  | _ \<Rightarrow> Inr False)
               else if key = ''$nor'' then
                 (case value of
                    Arr subQueries \<Rightarrow>
                      (case some (\<lambda>subQuery. matchesQuery_stack h n document subQuery)
                              subQueries of
                         Inl e \<Rightarrow> Inl e
                       | Inr b \<Rightarrow> Inr (\<not> b))
                  | _ \<Rightarrow> Inr False)
               else Inr False)
            else
              (let docValue = getNestedProperty document key in
               if value \<noteq> Null \<and> typeof value = ''object'' then
                 (case Object_entries value of
                    Inl e \<Rightarrow> Inl e
                  | Inr ops \<Rightarrow>
                      every (\<lambda>(op, opValue). matchesOperator_stack h n docValue op opValue) ops)
               else matchesOperator_stack h n docValue ''$eq'' value)) = Inl e"
      by (auto simp: matchesQuery_stack.simps dest!: every_Inl)
    show ?thesis
    proof (cases "startsWith_dollar key")
      case True
      with Inr mem have q: "query = Obj es" by (rule entries_dollar_Obj)
      from entry True obtain subQueries subQuery where
        k: "key \<in> {''$and'', ''$or'', ''$nor''}" and v: "value = Arr subQueries"
        and sq: "subQuery \<in> set subQueries"
        and r: "matchesQuery_stack h n document subQuery = Inl e"
        by (auto split: if_splits jsvalue.splits sum.splits dest!: every_Inl some_Inl)
      have mem': "(key, Arr subQueries) \<in> set es" using mem v by simp
      have d1: "depth (Arr subQueries) < depth query"
        using depth_entries [OF Inr mem'] by auto
      have d2: "depth subQuery < depth (Arr subQueries)" using sq by (rule depth_Arr_elem)
      from ihQ [OF r] consider "raised_in h document subQuery e"
        | "e = TypeError" "\<not> nullish_free subQuery"
        | "e = RangeError" "n \<le> 2 * depth subQuery + 2" by blast
      then show ?thesis
      proof cases
        case 1
        then obtain w op x where "query_applies document subQuery w op x"
          "operator_raises h w op x e"
          by (auto simp: raised_in_def)
        then show ?thesis
          using query_applies.composed [OF Inr mem' k sq] by (auto simp: raised_in_def)
      next
        case 2
        have "\<not> nullish_free query"
          using q mem k v sq 2(2) by (auto intro!: bexI [of _ "(key, value)"])
        with 2(1) show ?thesis by simp
      next
        case 3
        with d1 d2 show ?thesis by simp
      qed
    next
      case False
      show ?thesis
      proof (cases "value \<noteq> Null \<and> typeof value = ''object''")
        case obj: True
        then obtain ops where ops: "Object_entries value = Inr ops"
          by (cases "value") auto
        with entry False obj obtain op opValue where
          opmem: "(op, opValue) \<in> set ops" and
          opr: "matchesOperator_stack h n (getNestedProperty document key) op opValue = Inl e"
          by (auto simp: Let_def dest!: every_Inl)
        have applies: "query_applies document query (getNestedProperty document key) op opValue"
          by (rule query_applies.field [OF Inr mem False obj ops opmem])
        have d1: "depth value < depth query" "0 < depth value"
          using depth_entries_object [OF Inr mem obj] by simp_all
        have d2: "depth opValue < depth value"
          using depth_entries [OF ops opmem] d1(2) by auto
        from ihO [OF opr] consider
            "operator_raises h (getNestedProperty document key) op opValue e"
          | "op = ''$not''" "raised_in h (Obj [(''value'', getNestedProperty document key)])
                                (Obj [(''value'', opValue)]) e"
          | "e = RangeError" "n \<le> (if op = ''$not'' then 2 * depth opValue + 5 else 0)"
          by blast
        then show ?thesis
        proof cases
          case 1
          with applies show ?thesis by (auto simp: raised_in_def)
        next
          case 2
          then obtain w' op' x' where
            "query_applies (Obj [(''value'', getNestedProperty document key)])
               (Obj [(''value'', opValue)]) w' op' x'"
            "operator_raises h w' op' x' e" by (auto simp: raised_in_def)
          then show ?thesis
            using query_applies.negated [of document query "getNestedProperty document key"
                opValue w' op' x'] applies 2(1)
            by (auto simp: raised_in_def)
        next
          case 3
          with d1 d2 show ?thesis by (auto split: if_splits)
        qed
      next
        case nobj: False
        with entry False
        have opr: "matchesOperator_stack h n (getNestedProperty document key) ''$eq'' value = Inl e"
          by (auto simp: Let_def)
        from ihO [OF opr] have "e = RangeError \<and> n \<le> 0"
          by (simp add: operator_raises_def rel_of_def)
        then show ?thesis by simp
      qed
    qed
  qed
  have partO: "operator_raises h v op x e
       \<or> (op = ''$not'' \<and> raised_in h (Obj [(''value'', v)]) (Obj [(''value'', x)]) e)
       \<or> (e = RangeError \<and> Suc n \<le> (if op = ''$not'' then 2 * depth x + 5 else 0))"
    if raised: "matchesOperator_stack h (Suc n) v op x = Inl e" for v op x e
  proof (cases "op = ''$not''")
    case True
    with raised have
      r: "matchesQuery_stack h n (Obj [(''value'', v)]) (Obj [(''value'', x)]) = Inl e"
      by (simp add: matchesOperator_stack.simps split: sum.splits)
    from ihQ [OF r] nullish_free_value [of x]
    have "raised_in h (Obj [(''value'', v)]) (Obj [(''value'', x)]) e
          \<or> (e = RangeError \<and> n \<le> 2 * depth (Obj [(''value'', x)]) + 2)" by blast
    with True show ?thesis by auto
  next
    case False
    with raised have "operator_raises h v op x e"
      by (auto simp: matchesOperator_stack.simps operator_raises_def rel_of_def
          split: if_splits jsvalue.splits dest: js_rel_Inl)
    then show ?thesis by simp
  qed
  from partQ partO show ?case by blast
qed



lemma stack_enough:
  "(\<forall>d q. 2 * depth q + 2 < n \<longrightarrow> matchesQuery_stack h n d q = matchesQuery h d q)
   \<and> (\<forall>v op x. (if op = ''$not'' then 2 * depth x + 5 else 0) < n \<longrightarrow>
         matchesOperator_stack h n v op x = matchesOperator h v op x)"
proof (induction n)
  case 0
  show ?case by simp
next
  case (Suc n)
  then have ihQ: "\<And>d q. 2 * depth q + 2 < n \<Longrightarrow> matchesQuery_stack h n d q = matchesQuery h d q"
    and ihO: "\<And>v op x. (if op = ''$not'' then 2 * depth x + 5 else 0) < n \<Longrightarrow>
         matchesOperator_stack h n v op x = matchesOperator h v op x"
    by blast+
  have partQ: "matchesQuery_stack h (Suc n) document query = matchesQuery h document query"
    if enough: "2 * depth query + 2 < Suc n" for document query
  proof (cases "Object_entries query")
    case (Inl e)
    then show ?thesis by (simp add: matchesQuery_stack.simps matchesQuery.simps)
  next
    case (Inr es)
    have entry: "(case kv of (key, value) \<Rightarrow>
            if startsWith_dollar key then
              (if key = ''$and'' then
                 (case value of
                    Arr subQueries \<Rightarrow>
                      every (\<lambda>subQuery. matchesQuery_stack h n document subQuery) subQueries
                  | _ \<Rightarrow> Inr False)
               else if key = ''$or'' then
                 (case value of
                    Arr subQueries \<Rightarrow>
                      some (\<lambda>subQuery. matchesQuery_stack h n document subQuery) subQueries
                  | _ \<Rightarrow> Inr False)
               else if key = ''$nor'' then
                 (case value of
                    Arr subQueries \<Rightarrow>
                      (case some (\<lambda>subQuery. matchesQuery_stack h n document subQuery)
                              subQueries of
                         Inl e \<Rightarrow> Inl e
                       | Inr b \<Rightarrow> Inr (\<not> b))
                  | _ \<Rightarrow> Inr False)
               else Inr False)
            else
              (let docValue = getNestedProperty document key in
               if value \<noteq> Null \<and> typeof value = ''object'' then
                 (case Object_entries value of
                    Inl e \<Rightarrow> Inl e
                  | Inr ops \<Rightarrow>
                      every (\<lambda>(op, opValue). matchesOperator_stack h n docValue op opValue) ops)
               else matchesOperator_stack h n docValue ''$eq'' value))
         = (case kv of (key, value) \<Rightarrow>
            if startsWith_dollar key then
              (if key = ''$and'' then
                 (case value of
                    Arr subQueries \<Rightarrow>
                      every (\<lambda>subQuery. matchesQuery h document subQuery) subQueries
                  | _ \<Rightarrow> Inr False)
               else if key = ''$or'' then
                 (case value of
                    Arr subQueries \<Rightarrow>
                      some (\<lambda>subQuery. matchesQuery h document subQuery) subQueries
                  | _ \<Rightarrow> Inr False)
               else if key = ''$nor'' then
                 (case value of
                    Arr subQueries \<Rightarrow>
                      (case some (\<lambda>subQuery. matchesQuery h document subQuery) subQueries of
                         Inl e \<Rightarrow> Inl e
                       | Inr b \<Rightarrow> Inr (\<not> b))
                  | _ \<Rightarrow> Inr False)
               else Inr False)
            else
              (let docValue = getNestedProperty document key in
               if value \<noteq> Null \<and> typeof value = ''object'' then
                 (case Object_entries value of
                    Inl e \<Rightarrow> Inl e
                  | Inr ops \<Rightarrow> every (\<lambda>(op, opValue). matchesOperator h docValue op opValue) ops)
               else matchesOperator h docValue ''$eq'' value))"
      if kv: "kv \<in> set es" for kv
    proof -
      obtain key "value" where kveq: "kv = (key, value)" by (cases kv)
      have mem: "(key, value) \<in> set es" using kv kveq by simp
      have subs: "matchesQuery_stack h n document subQuery = matchesQuery h document subQuery"
        if "value = Arr subQueries" "subQuery \<in> set subQueries" for subQueries subQuery
      proof -
        have "depth (Arr subQueries) < depth query"
          using depth_entries [OF Inr mem] that(1) by auto
        moreover have "depth subQuery < depth (Arr subQueries)"
          using that(2) by (rule depth_Arr_elem)
        ultimately have "2 * depth subQuery + 2 < n" using enough by simp
        then show ?thesis by (rule ihQ)
      qed
      have e1: "every (\<lambda>subQuery. matchesQuery_stack h n document subQuery) subQueries
              = every (\<lambda>subQuery. matchesQuery h document subQuery) subQueries"
        if "value = Arr subQueries" for subQueries
        by (rule every_cong [OF refl]) (rule subs [OF that])
      have s1: "some (\<lambda>subQuery. matchesQuery_stack h n document subQuery) subQueries
              = some (\<lambda>subQuery. matchesQuery h document subQuery) subQueries"
        if "value = Arr subQueries" for subQueries
        by (rule some_cong [OF refl]) (rule subs [OF that])
      have o1: "every (\<lambda>(op, opValue). matchesOperator_stack h n docValue op opValue) ops
              = every (\<lambda>(op, opValue). matchesOperator h docValue op opValue) ops"
        if obj: "value \<noteq> Null \<and> typeof value = ''object''"
          and ops: "Object_entries value = Inr ops" for ops docValue
      proof (rule every_cong [OF refl])
        fix x assume x: "x \<in> set ops"
        obtain op opValue where xeq: "x = (op, opValue)" by (cases x)
        have d1: "depth value < depth query" "0 < depth value"
          using depth_entries_object [OF Inr mem obj] by simp_all
        have "depth opValue < depth value"
          using depth_entries [OF ops, of op opValue] x xeq d1(2) by auto
        with d1 enough have "(if op = ''$not'' then 2 * depth opValue + 5 else 0) < n"
          by simp
        then have "matchesOperator_stack h n docValue op opValue
                     = matchesOperator h docValue op opValue" by (rule ihO)
        then show "(case x of (op, opValue) \<Rightarrow> matchesOperator_stack h n docValue op opValue)
                 = (case x of (op, opValue) \<Rightarrow> matchesOperator h docValue op opValue)"
          by (simp add: xeq)
      qed
      have q1: "matchesOperator_stack h n docValue ''$eq'' w
              = matchesOperator h docValue ''$eq'' w" for docValue w
        using enough by (intro ihO) simp
      show ?thesis
      proof (cases "startsWith_dollar key")
        case dollar: True
        show ?thesis
        proof (cases "\<exists>subQueries. value = Arr subQueries")
          case True
          then obtain subQueries where v: "value = Arr subQueries" by blast
          show ?thesis
            unfolding kveq prod.case v jsvalue.case e1 [OF v] s1 [OF v]
            using dollar by (simp only: if_True)
        next
          case False
          then have nv: "(case value of Arr subQueries \<Rightarrow> f subQueries | _ \<Rightarrow> Inr False) = Inr False"
            for f :: "jsvalue list \<Rightarrow> error + bool"
            by (cases "value") simp_all
          show ?thesis
            unfolding kveq prod.case using dollar by (simp only: if_True nv)
        qed
      next
        case field: False
        show ?thesis
        proof (cases "value \<noteq> Null \<and> typeof value = ''object''")
          case obj: True
          then obtain ops where ops: "Object_entries value = Inr ops"
            by (cases "value") auto
          from obj have c: "(value \<noteq> Null \<and> typeof value = ''object'') = True" by simp
          show ?thesis
            using field unfolding kveq prod.case Let_def c by (simp add: ops o1 [OF obj ops])
        next
          case nobj: False
          then have c: "(value \<noteq> Null \<and> typeof value = ''object'') = False" by simp
          show ?thesis
            using field unfolding kveq prod.case Let_def c by (simp add: q1)
        qed
      qed
    qed
    have "matchesQuery_stack h (Suc n) document query
            = every (\<lambda>kv. case kv of (key, value) \<Rightarrow>
            if startsWith_dollar key then
              (if key = ''$and'' then
                 (case value of
                    Arr subQueries \<Rightarrow>
                      every (\<lambda>subQuery. matchesQuery_stack h n document subQuery) subQueries
                  | _ \<Rightarrow> Inr False)
               else if key = ''$or'' then
                 (case value of
                    Arr subQueries \<Rightarrow>
                      some (\<lambda>subQuery. matchesQuery_stack h n document subQuery) subQueries
                  | _ \<Rightarrow> Inr False)
               else if key = ''$nor'' then
                 (case value of
                    Arr subQueries \<Rightarrow>
                      (case some (\<lambda>subQuery. matchesQuery_stack h n document subQuery)
                              subQueries of
                         Inl e \<Rightarrow> Inl e
                       | Inr b \<Rightarrow> Inr (\<not> b))
                  | _ \<Rightarrow> Inr False)
               else Inr False)
            else
              (let docValue = getNestedProperty document key in
               if value \<noteq> Null \<and> typeof value = ''object'' then
                 (case Object_entries value of
                    Inl e \<Rightarrow> Inl e
                  | Inr ops \<Rightarrow>
                      every (\<lambda>(op, opValue). matchesOperator_stack h n docValue op opValue) ops)
               else matchesOperator_stack h n docValue ''$eq'' value)) es"
      by (subst matchesQuery_stack.simps) (simp only: Inr sum.case)
    also have "\<dots> = every (\<lambda>kv. case kv of (key, value) \<Rightarrow>
            if startsWith_dollar key then
              (if key = ''$and'' then
                 (case value of
                    Arr subQueries \<Rightarrow>
                      every (\<lambda>subQuery. matchesQuery h document subQuery) subQueries
                  | _ \<Rightarrow> Inr False)
               else if key = ''$or'' then
                 (case value of
                    Arr subQueries \<Rightarrow>
                      some (\<lambda>subQuery. matchesQuery h document subQuery) subQueries
                  | _ \<Rightarrow> Inr False)
               else if key = ''$nor'' then
                 (case value of
                    Arr subQueries \<Rightarrow>
                      (case some (\<lambda>subQuery. matchesQuery h document subQuery)
                              subQueries of
                         Inl e \<Rightarrow> Inl e
                       | Inr b \<Rightarrow> Inr (\<not> b))
                  | _ \<Rightarrow> Inr False)
               else Inr False)
            else
              (let docValue = getNestedProperty document key in
               if value \<noteq> Null \<and> typeof value = ''object'' then
                 (case Object_entries value of
                    Inl e \<Rightarrow> Inl e
                  | Inr ops \<Rightarrow>
                      every (\<lambda>(op, opValue). matchesOperator h docValue op opValue) ops)
               else matchesOperator h docValue ''$eq'' value)) es"
      by (rule every_cong [OF refl]) (rule entry)
    also have "\<dots> = matchesQuery h document query"
      by (subst matchesQuery.simps) (simp only: Inr sum.case)
    finally show ?thesis .
  qed
  have partO: "matchesOperator_stack h (Suc n) v op x = matchesOperator h v op x"
    if enough: "(if op = ''$not'' then 2 * depth x + 5 else 0) < Suc n" for v op x
  proof (cases "op = ''$not''")
    case True
    with enough have "2 * depth (Obj [(''value'', x)]) + 2 < n" by simp
    then have "matchesQuery_stack h n (Obj [(''value'', v)]) (Obj [(''value'', x)])
             = matchesQuery h (Obj [(''value'', v)]) (Obj [(''value'', x)])" by (rule ihQ)
    with True show ?thesis by (simp add: matchesOperator_stack.simps matchesOperator.simps)
  next
    case False
    then show ?thesis by (simp add: matchesOperator_stack.simps matchesOperator.simps)
  qed
  from partQ partO show ?case by blast
qed



lemma matchesQuery_raise:
  assumes "matchesQuery h d q = Inl e"
  shows "raised_in h d q e \<or> (e = TypeError \<and> \<not> nullish_free q)"
proof -
  have "\<forall>d q'. 2 * depth q' + 2 < 2 * depth q + 3 \<longrightarrow>
          matchesQuery_stack h (2 * depth q + 3) d q' = matchesQuery h d q'"
    using stack_enough [where n = "2 * depth q + 3" and h = h] by (rule conjunct1)
  then have "matchesQuery_stack h (2 * depth q + 3) d q = Inl e"
    using assms by simp
  moreover have "\<forall>d q' e. matchesQuery_stack h (2 * depth q + 3) d q' = Inl e \<longrightarrow>
       raised_in h d q' e \<or> (e = TypeError \<and> \<not> nullish_free q')
       \<or> (e = RangeError \<and> 2 * depth q + 3 \<le> 2 * depth q' + 2)"
    using stack_raise [where n = "2 * depth q + 3" and h = h] by (rule conjunct1)
  ultimately have "raised_in h d q e \<or> (e = TypeError \<and> \<not> nullish_free q)
       \<or> (e = RangeError \<and> 2 * depth q + 3 \<le> 2 * depth q + 2)" by blast
  then show ?thesis by simp
qed

text \<open>
  C2.  The claim says that \<^verbatim>\<open>{$and: []}\<close> matches no document.  The code takes
  \<^verbatim>\<open>[].every(...)\<close>, which is \<^verbatim>\<open>true\<close>, so the entry does not fail and the query
  matches.  The counterexample evaluates the query on the empty document.
\<close>

theorem and_empty_counterexample:
  "matchesQuery quiet_host (Obj []) (Obj [(''$and'', Arr [])]) = Inr True"
  by (simp add: matchesQuery.simps startsWith_dollar_def)

text \<open>
  C2, as amended: for every document, the query \<^verbatim>\<open>{$and: []}\<close> evaluates to
  \<^verbatim>\<open>true\<close>; the empty conjunction is vacuously satisfied.
\<close>

theorem and_empty_matches_every_document:
  "matchesQuery h D (Obj [(''$and'', Arr [])]) = Inr True"
  by (simp add: matchesQuery.simps startsWith_dollar_def)

text \<open>
  C5.  The claim says that evaluation never raises.  A \<^verbatim>\<open>null\<close> element in a
  \<^verbatim>\<open>$and\<close> array reaches \<^verbatim>\<open>Object.entries(null)\<close>, which throws a TypeError.
\<close>

theorem matchesQuery_raises_counterexample:
  "matchesQuery quiet_host (Obj []) (Obj [(''$and'', Arr [Null])]) = Inl TypeError"
  by (simp add: matchesQuery.simps startsWith_dollar_def)

text \<open>
  C5, as amended.  Evaluation always ends, with a boolean or with an exception, and an
  exception has one of three origins.  It is raised by the host in an operator that the
  query applies to a value of the document: \<^verbatim>\<open>new RegExp(operand).test(value)\<close> of a
  \<^verbatim>\<open>$regex\<close>, or the coercing comparison of the value with the operand of \<^verbatim>\<open>$gt\<close>,
  \<^verbatim>\<open>$gte\<close>, \<^verbatim>\<open>$lt\<close> or \<^verbatim>\<open>$lte\<close>.  Or it is the TypeError of enumerating a \<^verbatim>\<open>null\<close>
  or \<^verbatim>\<open>undefined\<close> query or sub-query.  Or it is the RangeError of a call stack with
  no more frames than the nesting of the query asks for, twice its depth and two; on a
  stack with more frames the evaluator answers as on a stack without end, where no
  RangeError arises.  A pattern that the host rejects on the value of the field does
  raise.  The structurally invalid operands degrade to \<^verbatim>\<open>false\<close>: a non-array operand of
  \<^verbatim>\<open>$and\<close>, \<^verbatim>\<open>$or\<close> or \<^verbatim>\<open>$nor\<close>, an unknown \<^verbatim>\<open>$\<close>-key and an unknown field operator.
\<close>

theorem matchesQuery_raises_only_from_applied_operator_null_subquery_or_stack:
  "(matchesQuery_stack h n d q = Inl e \<longrightarrow>
       raised_in h d q e \<or> (e = TypeError \<and> \<not> nullish_free q)
       \<or> (e = RangeError \<and> n \<le> 2 * depth q + 2))
   \<and> (2 * depth q + 2 < n \<longrightarrow> matchesQuery_stack h n d q = matchesQuery h d q)
   \<and> (matchesQuery h d q = Inl e \<longrightarrow>
       raised_in h d q e \<or> (e = TypeError \<and> \<not> nullish_free q))
   \<and> (\<not> startsWith_dollar f \<and> RegExp_test h p (getNestedProperty d f) = Inl e \<longrightarrow>
        matchesQuery h d (Obj [(f, Obj [(''$regex'', p)])]) = Inl e)
   \<and> (k \<in> {''$and'', ''$or'', ''$nor''} \<and> (\<forall>qs. v \<noteq> Arr qs) \<longrightarrow>
        matchesQuery h d (Obj [(k, v)]) = Inr False)
   \<and> (startsWith_dollar k' \<and> k' \<notin> {''$and'', ''$or'', ''$nor''} \<longrightarrow>
        matchesQuery h d (Obj [(k', v)]) = Inr False)
   \<and> (\<not> startsWith_dollar f \<and>
        op \<notin> {''$eq'', ''$gt'', ''$gte'', ''$lt'', ''$lte'', ''$ne'', ''$in'', ''$nin'',
                ''$not'', ''$exists'', ''$type'', ''$regex''} \<longrightarrow>
        matchesQuery h d (Obj [(f, Obj [(op, x)])]) = Inr False)"
proof (intro conjI impI)
  assume "matchesQuery_stack h n d q = Inl e"
  then show "raised_in h d q e \<or> (e = TypeError \<and> \<not> nullish_free q)
       \<or> (e = RangeError \<and> n \<le> 2 * depth q + 2)"
    using stack_raise [where n = n and h = h] by blast
next
  assume "2 * depth q + 2 < n"
  then show "matchesQuery_stack h n d q = matchesQuery h d q"
    using stack_enough [where n = n and h = h] by blast
next
  assume "matchesQuery h d q = Inl e"
  then show "raised_in h d q e \<or> (e = TypeError \<and> \<not> nullish_free q)"
    by (rule matchesQuery_raise)
next
  assume "\<not> startsWith_dollar f \<and> RegExp_test h p (getNestedProperty d f) = Inl e"
  then show "matchesQuery h d (Obj [(f, Obj [(''$regex'', p)])]) = Inl e"
    by (simp add: matchesQuery.simps matchesOperator.simps)
next
  assume "k \<in> {''$and'', ''$or'', ''$nor''} \<and> (\<forall>qs. v \<noteq> Arr qs)"
  then show "matchesQuery h d (Obj [(k, v)]) = Inr False"
    by (cases v) (auto simp: matchesQuery.simps startsWith_dollar_def)
next
  assume "startsWith_dollar k' \<and> k' \<notin> {''$and'', ''$or'', ''$nor''}"
  then show "matchesQuery h d (Obj [(k', v)]) = Inr False"
    by (simp add: matchesQuery.simps)
next
  assume "\<not> startsWith_dollar f \<and>
        op \<notin> {''$eq'', ''$gt'', ''$gte'', ''$lt'', ''$lte'', ''$ne'', ''$in'', ''$nin'',
                ''$not'', ''$exists'', ''$type'', ''$regex''}"
  then show "matchesQuery h d (Obj [(f, Obj [(op, x)])]) = Inr False"
    by (simp add: matchesQuery.simps matchesOperator.simps)
qed

theorem matchesQuery_raises_only_from_applied_operator_null_subquery_or_stack_witness:
  "matchesQuery_stack quiet_host 1 (Obj []) (Obj [(''$and'', Arr [Obj []])]) = Inl RangeError
   \<and> 1 \<le> 2 * depth (Obj [(''$and'', Arr [Obj []])]) + 2
   \<and> 2 * depth (Obj [(''$and'', Arr [Obj []])]) + 2 < 9
   \<and> matchesQuery_stack quiet_host 9 (Obj []) (Obj [(''$and'', Arr [Obj []])]) = Inr True
   \<and> matchesQuery quiet_host (Obj []) (Obj [(''$or'', Arr [Undefined])]) = Inl TypeError
   \<and> \<not> nullish_free (Obj [(''$or'', Arr [Undefined])])
   \<and> matchesQuery quiet_host (Obj []) (Obj [(''name'', Obj [(''$regex'', Str ''('')])])
       = Inl SyntaxError
   \<and> raised_in quiet_host (Obj []) (Obj [(''name'', Obj [(''$regex'', Str ''('')])]) SyntaxError
   \<and> matchesQuery quiet_host (Obj []) (Obj [(''$and'', Num 1)]) = Inr False
   \<and> matchesQuery quiet_host (Obj []) (Obj [(''$where'', Num 1)]) = Inr False
   \<and> matchesQuery quiet_host (Obj []) (Obj [(''name'', Obj [(''$size'', Num 1)])]) = Inr False"
proof -
  have nr: "\<not> raised_in quiet_host d q TypeError" "\<not> raised_in quiet_host d q RangeError"
    for d q
    by (simp_all add: raised_in_def operator_raises_def quiet_host_def)
  have s1: "matchesQuery_stack quiet_host 1 (Obj []) (Obj [(''$and'', Arr [Obj []])])
              = Inl RangeError"
    by (simp add: matchesQuery_stack.simps startsWith_dollar_def One_nat_def)
  have dq: "2 * depth (Obj [(''$and'', Arr [Obj []])]) + 2 < 9" by simp
  have m1: "matchesQuery quiet_host (Obj []) (Obj [(''$and'', Arr [Obj []])]) = Inr True"
    by (simp add: matchesQuery.simps startsWith_dollar_def)
  have r: "matchesQuery quiet_host (Obj []) (Obj [(''$or'', Arr [Undefined])]) = Inl TypeError"
    by (simp add: matchesQuery.simps startsWith_dollar_def)
  have rx: "RegExp_test quiet_host (Str ''('') (getNestedProperty (Obj []) ''name'')
              = Inl SyntaxError"
    by (simp add: quiet_host_def)
  have nd: "\<not> startsWith_dollar ''name''" "startsWith_dollar ''$where''"
    by (simp_all add: startsWith_dollar_def)
  note t = matchesQuery_raises_only_from_applied_operator_null_subquery_or_stack
        [where h = quiet_host and d = "Obj []" and f = "''name''" and k = "''$and''"
           and v = "Num 1" and k' = "''$where''" and op = "''$size''" and x = "Num 1"]
  note t0 = t [where q = "Obj [(''$and'', Arr [Obj []])]" and e = RangeError and n = 1,
      THEN conjunct1, rule_format, OF s1]
  note t9 = t [where q = "Obj [(''$and'', Arr [Obj []])]" and n = 9,
      THEN conjunct2, THEN conjunct1, rule_format, OF dq]
  note t1 = t [where q = "Obj [(''$or'', Arr [Undefined])]" and e = TypeError,
      THEN conjunct2, THEN conjunct2, THEN conjunct1, rule_format, OF r]
  note t2 = t [where e = SyntaxError and p = "Str ''(''",
      THEN conjunct2, THEN conjunct2, THEN conjunct2, THEN conjunct1, rule_format,
      OF conjI [OF nd(1) rx]]
  note t3 = t [where q = "Obj [(''name'', Obj [(''$regex'', Str ''('')])]" and e = SyntaxError,
      THEN conjunct2, THEN conjunct2, THEN conjunct1, rule_format, OF t2]
  note t4 = t [THEN conjunct2, THEN conjunct2, THEN conjunct2, THEN conjunct2]
  from t0 nr(2) have c1: "1 \<le> 2 * depth (Obj [(''$and'', Arr [Obj []])]) + 2" by simp
  from t9 m1
  have c2: "matchesQuery_stack quiet_host 9 (Obj []) (Obj [(''$and'', Arr [Obj []])]) = Inr True"
    by (rule trans)
  from t1 nr(1) have c3: "\<not> nullish_free (Obj [(''$or'', Arr [Undefined])])" by blast
  from t3 have c5: "raised_in quiet_host (Obj [])
         (Obj [(''name'', Obj [(''$regex'', Str ''('')])]) SyntaxError" by simp
  have c6: "matchesQuery quiet_host (Obj []) (Obj [(''$and'', Num 1)]) = Inr False"
    by (rule t4 [THEN conjunct1, rule_format]) simp
  have c7: "matchesQuery quiet_host (Obj []) (Obj [(''$where'', Num 1)]) = Inr False"
    by (rule t4 [THEN conjunct2, THEN conjunct1, rule_format]) (simp add: nd)
  have c8: "matchesQuery quiet_host (Obj []) (Obj [(''name'', Obj [(''$size'', Num 1)])])
              = Inr False"
    by (rule t4 [THEN conjunct2, THEN conjunct2, rule_format]) (simp add: nd)
  from s1 c1 dq c2 r c3 t2 c5 c6 c7 c8 show ?thesis by (intro conjI)
qed

text \<open>
  C10.  A field condition \<^verbatim>\<open>{f: {$ne: v}}\<close> with a defined operand matches every
  document in which the path \<open>f\<close> resolves to \<^verbatim>\<open>undefined\<close>.  A key is a field path
  when it does not begin with \<^verbatim>\<open>$\<close>; the evaluator reads the other keys as composition
  operators.
\<close>

theorem ne_matches_absent_field:
  assumes "\<not> startsWith_dollar f"
    and "getNestedProperty D f = Undefined"
    and "v \<noteq> Undefined"
  shows "matchesQuery h D (Obj [(f, Obj [(''$ne'', v)])]) = Inr True"
  using assms by (simp add: matchesQuery.simps matchesOperator.simps strict_eq_def)

theorem ne_matches_absent_field_witness:
  "\<not> startsWith_dollar ''address.city''
   \<and> getNestedProperty (Obj [(''name'', Str ''Ann''), (''address'', Null)]) ''address.city''
       = Undefined
   \<and> Num 5 \<noteq> Undefined
   \<and> matchesQuery quiet_host (Obj [(''name'', Str ''Ann''), (''address'', Null)])
        (Obj [(''address.city'', Obj [(''$ne'', Num 5)])]) = Inr True"
proof -
  have a: "\<not> startsWith_dollar ''address.city''"
    by (simp add: startsWith_dollar_def)
  have b: "getNestedProperty (Obj [(''name'', Str ''Ann''), (''address'', Null)])
             ''address.city'' = Undefined"
    by (simp add: getNestedProperty_def)
  have c: "Num 5 \<noteq> Undefined" by simp
  from a b c ne_matches_absent_field [OF a b c, of quiet_host] show ?thesis by simp
qed

section \<open>Properties of the cursor\<close>

lemmas example_defs = example_host_def quiet_host_def people_def ann_def bob_def ann_json_def
  bob_json_def ann_raised_def ann_raised_json_def ann_moved_def ann_moved_json_def
  ann_moved_raised_def ann_moved_raised_json_def

lemma find_fresh:
  "documents (CollectionImpl_find cn q opts) = []"
  "priv_documents (CollectionImpl_find cn q opts) = None"
  "priv_sort (CollectionImpl_find cn q opts) = None"
  "priv_skip (CollectionImpl_find cn q opts) = None"
  "priv_limit (CollectionImpl_find cn q opts) = None"
  "execute_collection (CollectionImpl_find cn q opts) = cn"
  "execute_query (CollectionImpl_find cn q opts) = (if q = Undefined then Obj [] else q)"
  by (simp_all add: CollectionImpl_find_def)

lemma people_execute:
  "execute example_host ''people'' (Obj []) people = Inr ([ann, bob], people\<lparr>scans := 1\<rparr>)"
  by (simp add: execute_def getAllDocuments_def sql_select_def example_defs
      matchesQuery.simps)

text \<open>
  C9.  A limit of 0 and a skip of 0 count as not set: \<^verbatim>\<open>toArray\<close> of the class gives
  the same result as without the modifier, and on a cursor that \<^verbatim>\<open>find\<close> has just
  returned, \<^verbatim>\<open>limit(0).toArray()\<close> and \<^verbatim>\<open>skip(0).toArray()\<close> return the whole match
  set.
\<close>

theorem zero_limit_and_zero_skip_are_unset:
  "CursorImpl_toArray h (CursorImpl_limit 0 c) = CursorImpl_toArray h (c\<lparr>priv_limit := None\<rparr>)
   \<and> CursorImpl_toArray h (CursorImpl_skip 0 c) = CursorImpl_toArray h (c\<lparr>priv_skip := None\<rparr>)
   \<and> (execute h cn (if q = Undefined then Obj [] else q) st = Inr (matching, st') \<longrightarrow>
        find_toArray h (CursorImpl_limit 0 (CollectionImpl_find cn q opts)) st
          = Inr (matching,
                 (CursorImpl_limit 0 (CollectionImpl_find cn q opts))\<lparr>documents := matching\<rparr>,
                 st')
        \<and> find_toArray h (CursorImpl_skip 0 (CollectionImpl_find cn q opts)) st
          = Inr (matching,
                 (CursorImpl_skip 0 (CollectionImpl_find cn q opts))\<lparr>documents := matching\<rparr>,
                 st'))"
proof (intro conjI impI)
  show "CursorImpl_toArray h (CursorImpl_limit 0 c)
          = CursorImpl_toArray h (c\<lparr>priv_limit := None\<rparr>)"
    by (simp add: CursorImpl_toArray_def CursorImpl_limit_def split: option.split sum.split)
  show "CursorImpl_toArray h (CursorImpl_skip 0 c)
          = CursorImpl_toArray h (c\<lparr>priv_skip := None\<rparr>)"
    by (simp add: CursorImpl_toArray_def CursorImpl_skip_def split: option.split sum.split)
next
  assume ex: "execute h cn (if q = Undefined then Obj [] else q) st = Inr (matching, st')"
  show "find_toArray h (CursorImpl_limit 0 (CollectionImpl_find cn q opts)) st
          = Inr (matching,
                 (CursorImpl_limit 0 (CollectionImpl_find cn q opts))\<lparr>documents := matching\<rparr>,
                 st')"
    using ex
    by (simp add: find_toArray_def find_fresh CursorImpl_toArray_def CursorImpl_limit_def)
  show "find_toArray h (CursorImpl_skip 0 (CollectionImpl_find cn q opts)) st
          = Inr (matching,
                 (CursorImpl_skip 0 (CollectionImpl_find cn q opts))\<lparr>documents := matching\<rparr>,
                 st')"
    using ex
    by (simp add: find_toArray_def find_fresh CursorImpl_toArray_def CursorImpl_skip_def)
qed

theorem zero_limit_and_zero_skip_are_unset_witness:
  "execute example_host ''people'' (Obj []) people = Inr ([ann, bob], people\<lparr>scans := 1\<rparr>)
   \<and> find_toArray example_host
        (CursorImpl_limit 0 (CollectionImpl_find ''people'' (Obj []) Undefined)) people
       = Inr ([ann, bob],
              (CursorImpl_limit 0 (CollectionImpl_find ''people'' (Obj []) Undefined))
                \<lparr>documents := [ann, bob]\<rparr>,
              people\<lparr>scans := 1\<rparr>)
   \<and> find_toArray example_host
        (CursorImpl_skip 0 (CollectionImpl_find ''people'' (Obj []) Undefined)) people
       = Inr ([ann, bob],
              (CursorImpl_skip 0 (CollectionImpl_find ''people'' (Obj []) Undefined))
                \<lparr>documents := [ann, bob]\<rparr>,
              people\<lparr>scans := 1\<rparr>)"
  using zero_limit_and_zero_skip_are_unset
    [where h = example_host and cn = "''people''" and q = "Obj []" and opts = Undefined
       and st = people and matching = "[ann, bob]" and st' = "people\<lparr>scans := 1\<rparr>"]
    people_execute
  by simp

text \<open>
  C1.  The claim says that \<^verbatim>\<open>count()\<close> returns the number of matching documents
  whether or not \<^verbatim>\<open>toArray()\<close> ran before.  \<^verbatim>\<open>find\<close> replaces \<^verbatim>\<open>toArray\<close> only;
  \<^verbatim>\<open>count\<close> stays the method of the class and reads \<^verbatim>\<open>documents\<close>, which is empty
  until \<^verbatim>\<open>toArray\<close> or \<^verbatim>\<open>first\<close> has fetched.  In the store of the examples two
  documents match the empty query, and the count of the cursor is 0.
\<close>

theorem count_before_toArray_is_zero:
  "execute example_host ''people'' (Obj []) people = Inr ([ann, bob], people\<lparr>scans := 1\<rparr>)
   \<and> CursorImpl_count
        (CursorImpl_limit 1 (CursorImpl_skip 1 (CollectionImpl_find ''people'' (Obj []) Undefined)))
       = 0"
proof
  show "execute example_host ''people'' (Obj []) people = Inr ([ann, bob], people\<lparr>scans := 1\<rparr>)"
    by (rule people_execute)
  show "CursorImpl_count
          (CursorImpl_limit 1 (CursorImpl_skip 1 (CollectionImpl_find ''people'' (Obj []) Undefined)))
        = 0"
    by (simp add: CursorImpl_count_def CursorImpl_limit_def CursorImpl_skip_def
       CollectionImpl_find_def)
qed

text \<open>Once \<^verbatim>\<open>toArray\<close> has run, the count is the size of the match set, whatever the
  skip and the limit.\<close>

lemma count_after_toArray:
  assumes "execute h (execute_collection c) (execute_query c) st = Inr (matching, st1)"
    and "find_toArray h c st = Inr (result, c', st')"
    and "priv_documents c = None"
  shows "CursorImpl_count c' = length matching"
  using assms by (auto simp: find_toArray_def CursorImpl_count_def Let_def split: sum.splits)

text \<open>Every successful \<^verbatim>\<open>toArray\<close> on a cursor of \<^verbatim>\<open>find\<close> reads the collection
  again: the guard tests \<^verbatim>\<open>_documents\<close>, and the result is stored in \<^verbatim>\<open>documents\<close>.\<close>

lemma toArray_scans:
  assumes "find_toArray h c st = Inr (result, c', st')" and "priv_documents c = None"
  shows "scans st' = scans st + 1 \<and> priv_documents c' = None"
  using assms
  by (auto simp: find_toArray_def execute_def getAllDocuments_def sql_select_def Let_def
      split: sum.splits)

text \<open>
  C3.  The claim says that the collection is read at most once in the life of a cursor.
  Two calls of \<^verbatim>\<open>toArray\<close> on the same cursor read it twice: after the second call
  the store has executed two \<^verbatim>\<open>SELECT\<close> statements.
\<close>

theorem toArray_twice_scans_twice:
  "find_toArray example_host (CollectionImpl_find ''people'' (Obj []) Undefined) people
     = Inr ([ann, bob],
            (CollectionImpl_find ''people'' (Obj []) Undefined)\<lparr>documents := [ann, bob]\<rparr>,
            people\<lparr>scans := 1\<rparr>)
   \<and> find_toArray example_host
        ((CollectionImpl_find ''people'' (Obj []) Undefined)\<lparr>documents := [ann, bob]\<rparr>)
        (people\<lparr>scans := 1\<rparr>)
     = Inr ([ann, bob],
            (CollectionImpl_find ''people'' (Obj []) Undefined)\<lparr>documents := [ann, bob]\<rparr>,
            people\<lparr>scans := 2\<rparr>)"
  by (simp add: find_toArray_def CursorImpl_toArray_def execute_def CollectionImpl_find_def
      getAllDocuments_def sql_select_def example_defs matchesQuery.simps)

section \<open>Properties of updateOne\<close>




















section \<open>Properties of sorting\<close>


lemma compareDocs_decides:
  "js_rel h Lt (getNestedProperty a key) (getNestedProperty b key) = Inr True \<Longrightarrow>
     compareDocs h ((key, direction) # rest) a b = Inr (- direction)"
  "js_rel h Lt (getNestedProperty a key) (getNestedProperty b key) = Inr False \<Longrightarrow>
   js_rel h Gt (getNestedProperty a key) (getNestedProperty b key) = Inr True \<Longrightarrow>
     compareDocs h ((key, direction) # rest) a b = Inr direction"
  "js_rel h Lt (getNestedProperty a key) (getNestedProperty b key) = Inr False \<Longrightarrow>
   js_rel h Gt (getNestedProperty a key) (getNestedProperty b key) = Inr False \<Longrightarrow>
     compareDocs h ((key, direction) # rest) a b = compareDocs h rest a b"
  by simp_all


















lemma literal_entries_index_keys_first:
  "literal_entries [(''name'', 1 :: int), (''0'', - 1)] = [(''0'', - 1), (''name'', 1)]"
  by (simp add: literal_entries_def add_property_def parse_index_def is_digit_def
      nat_of_digits_def)





text \<open>The comparator is a consistent ordering, for one, whenever every sort key resolves to a number in
  every document and the directions are 1 or -1: the comparator is then the lexicographic
  order of the numbers, each key upwards or downwards.\<close>

lemma js_rel_numbers:
  "js_rel h Lt (Num x) (Num y) = Inr (x < y)"
  "js_rel h Gt (Num x) (Num y) = Inr (y < x)"
  by (simp_all add: js_rel_def)

lemma compareDocs_numbers:
  assumes "getNestedProperty a key = Num na" "getNestedProperty b key = Num nb"
  shows "compareDocs h ((key, direction) # rest) a b =
           (if na < nb then Inr (- direction)
            else if nb < na then Inr direction
            else compareDocs h rest a b)"
  unfolding compareDocs.simps Let_def assms js_rel_numbers by simp

lemma numeric_compare:
  assumes num: "\<forall>d \<in> S. \<forall>kd \<in> set sortSpec. \<exists>n. getNestedProperty d (fst kd) = Num n"
    and dirs: "\<forall>kd \<in> set sortSpec. snd kd = 1 \<or> snd kd = - 1"
  shows "\<exists>c. (\<forall>a \<in> S. \<forall>b \<in> S. compareDocs h sortSpec a b = Inr (c a b))
           \<and> (\<forall>a \<in> S. \<forall>b \<in> S. c b a = - c a b)
           \<and> (\<forall>a \<in> S. \<forall>b \<in> S. \<forall>d \<in> S. c a b \<le> 0 \<longrightarrow> c b d \<le> 0 \<longrightarrow>
                 c a d \<le> 0 \<and> (c a b < 0 \<or> c b d < 0 \<longrightarrow> c a d < 0))"
  using assms
proof (induction sortSpec)
  case Nil
  show ?case by (rule exI [of _ "\<lambda>a b. 0"]) simp
next
  case (Cons kd rest)
  obtain key direction where kd: "kd = (key, direction)" by (cases kd)
  from Cons.prems have dir: "direction = 1 \<or> direction = - 1" by (simp add: kd)
  have "\<exists>c. (\<forall>a \<in> S. \<forall>b \<in> S. compareDocs h rest a b = Inr (c a b))
           \<and> (\<forall>a \<in> S. \<forall>b \<in> S. c b a = - c a b)
           \<and> (\<forall>a \<in> S. \<forall>b \<in> S. \<forall>d \<in> S. c a b \<le> 0 \<longrightarrow> c b d \<le> 0 \<longrightarrow>
                 c a d \<le> 0 \<and> (c a b < 0 \<or> c b d < 0 \<longrightarrow> c a d < 0))"
    using Cons.IH Cons.prems by simp
  then obtain c where c1: "\<And>a b. a \<in> S \<Longrightarrow> b \<in> S \<Longrightarrow> compareDocs h rest a b = Inr (c a b)"
    and c2: "\<And>a b. a \<in> S \<Longrightarrow> b \<in> S \<Longrightarrow> c b a = - c a b"
    and c3: "\<And>a b d. a \<in> S \<Longrightarrow> b \<in> S \<Longrightarrow> d \<in> S \<Longrightarrow> c a b \<le> 0 \<Longrightarrow> c b d \<le> 0 \<Longrightarrow>
                 c a d \<le> 0 \<and> (c a b < 0 \<or> c b d < 0 \<longrightarrow> c a d < 0)"
    by blast
  define n where "n d = (case getNestedProperty d key of Num m \<Rightarrow> m | _ \<Rightarrow> 0)" for d
  have n: "getNestedProperty d key = Num (n d)" if "d \<in> S" for d
  proof -
    from that Cons.prems(1) obtain m where "getNestedProperty d key = Num m"
      by (auto simp: kd)
    then show ?thesis by (simp add: n_def)
  qed
  define c' where "c' a b = (if n a < n b then - direction
                            else if n b < n a then direction else c a b)" for a b
  have cmp: "compareDocs h (kd # rest) a b = Inr (c' a b)" if "a \<in> S" "b \<in> S" for a b
    unfolding kd compareDocs_numbers [OF n [OF that(1)] n [OF that(2)]] c'_def
      c1 [OF that] by simp
  have flip: "c' b a = - c' a b" if "a \<in> S" "b \<in> S" for a b
    using c2 [OF that] by (auto simp: c'_def)
  have trans: "c' a d \<le> 0 \<and> (c' a b < 0 \<or> c' b d < 0 \<longrightarrow> c' a d < 0)"
    if "a \<in> S" "b \<in> S" "d \<in> S" "c' a b \<le> 0" "c' b d \<le> 0" for a b d
  proof -
    note rest = c3 [OF that(1-3)]
    consider "direction = 1" | "direction = - 1" using dir by blast
    then show ?thesis
    proof cases
      case 1
      with that(4,5) rest show ?thesis
        unfolding c'_def by (auto split: if_splits)
    next
      case 2
      with that(4,5) rest show ?thesis
        unfolding c'_def by (auto split: if_splits)
    qed
  qed
  show ?case
  proof (rule exI [of _ c'], intro ballI conjI impI)
    fix a b assume "a \<in> S" "b \<in> S"
    then show "compareDocs h (kd # rest) a b = Inr (c' a b)" by (rule cmp)
  next
    fix a b assume "a \<in> S" "b \<in> S"
    then show "c' b a = - c' a b" by (rule flip)
  next
    fix a b d assume "a \<in> S" "b \<in> S" "d \<in> S" "c' a b \<le> 0" "c' b d \<le> 0"
    then show "c' a d \<le> 0" using trans by blast
  next
    fix a b d assume "a \<in> S" "b \<in> S" "d \<in> S" "c' a b \<le> 0" "c' b d \<le> 0"
      "c' a b < 0 \<or> c' b d < 0"
    then show "c' a d < 0" using trans by blast
  qed
qed

lemma numeric_keys_consistent:
  assumes "\<forall>d \<in> set ds. \<forall>kd \<in> set sortSpec. \<exists>n. getNestedProperty d (fst kd) = Num n"
    and "\<forall>kd \<in> set sortSpec. snd kd = 1 \<or> snd kd = - 1"
  shows "consistent_on (compareDocs h sortSpec) ds"
proof -
  from numeric_compare [OF assms, of h] obtain c
    where c1: "\<And>a b. a \<in> set ds \<Longrightarrow> b \<in> set ds \<Longrightarrow> compareDocs h sortSpec a b = Inr (c a b)"
    and c2: "\<And>a b. a \<in> set ds \<Longrightarrow> b \<in> set ds \<Longrightarrow> c b a = - c a b"
    and c3: "\<And>a b d. a \<in> set ds \<Longrightarrow> b \<in> set ds \<Longrightarrow> d \<in> set ds \<Longrightarrow>
                 c a b \<le> 0 \<Longrightarrow> c b d \<le> 0 \<Longrightarrow>
                 c a d \<le> 0 \<and> (c a b < 0 \<or> c b d < 0 \<longrightarrow> c a d < 0)"
    by blast
  show ?thesis
    unfolding consistent_on_def
  proof (intro conjI ballI impI)
    fix a b assume ab: "a \<in> set ds" "b \<in> set ds"
    show "case compareDocs h sortSpec a b of
           Inl e \<Rightarrow> False
         | Inr x \<Rightarrow> (case compareDocs h sortSpec b a of
                      Inl e \<Rightarrow> False | Inr c' \<Rightarrow> (x < 0) = (0 < c'))"
      unfolding c1 [OF ab] c1 [OF ab(2) ab(1)] c2 [OF ab] by simp
  next
    fix a b d assume abd: "a \<in> set ds" "b \<in> set ds" "d \<in> set ds"
      and le: "cmp_le (compareDocs h sortSpec) a b \<and> cmp_le (compareDocs h sortSpec) b d"
    from le have "c a b \<le> 0" "c b d \<le> 0"
      by (simp_all add: cmp_le_def c1 [OF abd(1,2)] c1 [OF abd(2,3)])
    then have "c a d \<le> 0" using c3 [OF abd] by blast
    then show "cmp_le (compareDocs h sortSpec) a d" by (simp add: cmp_le_def c1 [OF abd(1,3)])
  qed
qed

section \<open>Properties of the mutation applier\<close>

lemma nested_heap_stored:
  "store nested_doc [] = (HRef 1, take 2 nested_heap)"
  "store set_nested (take 2 nested_heap) = (HRef 3, nested_heap)"
  by (simp_all add: nested_doc_def set_nested_def nested_heap_def h_alloc_def)

text \<open>
  C4.  The claim says that \<^verbatim>\<open>applyUpdate\<close> leaves its input unchanged at every depth.
  The copy \<^verbatim>\<open>{ ...document }\<close> shares the nested objects of the document, and
  \<^verbatim>\<open>setNestedProperty\<close> walks into them, so a write through a dotted path lands in
  an object of the input.  The store \<open>nested_heap\<close> holds the document
  \<^verbatim>\<open>{_id: "1", a: {b: 1}}\<close> at address 1 and the update \<^verbatim>\<open>{$set: {"a.b": 2}}\<close>
  at address 3.  After \<^verbatim>\<open>applyUpdate\<close> the copy is at address 4, and the document
  read back from address 1 has \<^verbatim>\<open>a.b = 2\<close>.
\<close>

theorem applyUpdate_changes_nested_input:
  "load_value nested_heap (HRef 1) = Some nested_doc
   \<and> applyUpdate_st quiet_host nested_heap (HRef 1) (HRef 3)
       = Inr (HRef 4, nested_heap[0 := HObj [(''b'', HNum 2)]]
                        @ [HObj [(''_id'', HStr ''1''), (''a'', HRef 0)]])
   \<and> load_value (nested_heap[0 := HObj [(''b'', HNum 2)]]
                   @ [HObj [(''_id'', HStr ''1''), (''a'', HRef 0)]]) (HRef 1)
       = Some (Obj [(''_id'', Str ''1''), (''a'', Obj [(''b'', Num 2)])])"
proof (intro conjI)
  show "load_value nested_heap (HRef 1) = Some nested_doc"
    by (simp add: load_value_def nested_heap_def nested_doc_def h_lookup_def)
  show "applyUpdate_st quiet_host nested_heap (HRef 1) (HRef 3)
       = Inr (HRef 4, nested_heap[0 := HObj [(''b'', HNum 2)]]
                        @ [HObj [(''_id'', HStr ''1''), (''a'', HRef 0)]])"
    by (simp add: applyUpdate_st_def apply_operator_st_def apply_field_st_def spread_st_def
        h_entries_def h_lookup_def h_alloc_def nested_heap_def setNestedProperty_st_def
        h_in_def h_get_def h_set_def)
  show "load_value (nested_heap[0 := HObj [(''b'', HNum 2)]]
                   @ [HObj [(''_id'', HStr ''1''), (''a'', HRef 0)]]) (HRef 1)
       = Some (Obj [(''_id'', Str ''1''), (''a'', Obj [(''b'', Num 2)])])"
    by (simp add: load_value_def nested_heap_def h_lookup_def)
qed

text \<open>
  C6.  The claim says that \<^verbatim>\<open>$push\<close> fails on a field that holds a value which is
  not an array.  The code takes \<^verbatim>\<open>getNestedProperty(result, field) || []\<close>, so a
  value that is falsy counts as missing: on a document whose field \<^verbatim>\<open>n\<close> is 0,
  \<^verbatim>\<open>{$push: {n: 1}}\<close> succeeds and replaces the number by \<^verbatim>\<open>[1]\<close>, while on the
  same document with \<^verbatim>\<open>n: 5\<close> it raises the error for a non-array field.
\<close>

theorem push_on_zero_succeeds:
  "getNestedProperty (Obj [(''_id'', Str ''1''), (''n'', Num 0)]) ''n'' = Num 0
   \<and> applyUpdate quiet_host (Obj [(''_id'', Str ''1''), (''n'', Num 0)])
        (Obj [(''$push'', Obj [(''n'', Num 1)])])
       = Inr (Obj [(''_id'', Str ''1''), (''n'', Arr [Num 1])])
   \<and> applyUpdate quiet_host (Obj [(''_id'', Str ''1''), (''n'', Num 5)])
        (Obj [(''$push'', Obj [(''n'', Num 1)])])
       = Inl (non_array ''$push'' ''n'')"
  by (simp add: applyUpdate_def apply_operator_def apply_field_def spread_def
      getNestedProperty_def setNestedProperty_def)

text \<open>The two parts of the claim that the code does follow: \<^verbatim>\<open>$pull\<close> raises unless the
  field holds an array, an absent field included, and \<^verbatim>\<open>$push\<close> raises on a truthy
  value that is not an array.\<close>

lemma pull_needs_an_array:
  assumes "\<forall>xs. getNestedProperty (Obj kvs) f \<noteq> Arr xs"
  shows "applyUpdate h (Obj kvs) (Obj [(''$pull'', Obj [(f, v)])]) = Inl (non_array ''$pull'' f)"
  using assms
  by (cases "getNestedProperty (Obj kvs) f")
     (simp_all add: applyUpdate_def apply_operator_def apply_field_def spread_def)

lemma push_rejects_truthy_non_array:
  assumes "truthy (getNestedProperty (Obj kvs) f)"
    and "\<forall>xs. getNestedProperty (Obj kvs) f \<noteq> Arr xs"
  shows "applyUpdate h (Obj kvs) (Obj [(''$push'', Obj [(f, v)])]) = Inl (non_array ''$push'' f)"
  using assms
  by (cases "getNestedProperty (Obj kvs) f")
     (simp_all add: applyUpdate_def apply_operator_def apply_field_def spread_def)

end
